theory Spec2Isabelle
  imports Complex_Main
begin

section \<open>Data model of the rules engine (chess-engine.js)\<close>

text \<open>
  A piece is the object \<open>{type, color}\<close>. The type is one of the six letters
  \<open>p n b r q k\<close>; the seventh constructor \<open>BoolTrue\<close> stands for the boolean
  \<open>true\<close>, which the search passes as promotion piece (\<open>move.promotion || 'q'\<close>
  with \<open>move.promotion === true\<close>) and which \<open>makeMove\<close> then stores as a type.
  Piece objects are never mutated in place, so they are modelled as values.
\<close>

datatype color = White | Black

datatype ptype = Pawn | Knight | Bishop | Rook | Queen | King | BoolTrue

record piece =
  ptype :: ptype
  color :: color

datatype side = KingSide | QueenSide

datatype gstate = Playing | Check | Checkmate | Stalemate | Draw

text \<open>
  A JavaScript number that is an integer or \<open>NaN\<close> (\<open>parseInt\<close> can produce
  \<open>NaN\<close> for the two clocks). Integers are unbounded here.
\<close>

datatype jsnum = NaN | Num int

type_synonym square = "int \<times> int"

type_synonym board = "piece option list list"

text \<open>A candidate move, relative to an implicit source square.\<close>

record move =
  row :: int
  col :: int
  capture :: bool
  promotion :: bool
  enPassant :: bool
  castling :: "side option"
  doublePush :: bool

text \<open>An element of the list returned by \<open>getAllLegalMoves\<close>: the candidate plus
  \<open>from\<close>, \<open>to\<close> and \<open>piece\<close>.\<close>

record legalMove = move +
  from_sq :: square
  to_sq :: square
  moved :: piece

record moveRecord =
  mr_from :: square
  mr_to :: square
  mr_piece :: piece
  mr_captured :: "piece option"
  mr_castling :: "side option"
  mr_enPassant :: bool
  mr_promotion :: "ptype option"
  mr_check :: bool
  mr_checkmate :: bool

record rights =
  whiteKingSide :: bool
  whiteQueenSide :: bool
  blackKingSide :: bool
  blackQueenSide :: bool

record engine =
  board :: board
  currentPlayer :: color
  moveHistory :: "moveRecord list"
  capturedWhite :: "piece list"
  capturedBlack :: "piece list"
  castlingRights :: rights
  enPassantTarget :: "square option"
  halfMoveClock :: jsnum
  fullMoveNumber :: jsnum
  positionHistory :: "string list"
  gameState :: gstate

definition other :: "color \<Rightarrow> color" where
  "other c = (if c = White then Black else White)"

definition kingSide :: "rights \<Rightarrow> color \<Rightarrow> bool" where
  "kingSide cr c = (if c = White then whiteKingSide cr else blackKingSide cr)"

definition queenSide :: "rights \<Rightarrow> color \<Rightarrow> bool" where
  "queenSide cr c = (if c = White then whiteQueenSide cr else blackQueenSide cr)"

definition setKingSide :: "color \<Rightarrow> bool \<Rightarrow> rights \<Rightarrow> rights" where
  "setKingSide c v cr = (if c = White then cr\<lparr>whiteKingSide := v\<rparr> else cr\<lparr>blackKingSide := v\<rparr>)"

definition setQueenSide :: "color \<Rightarrow> bool \<Rightarrow> rights \<Rightarrow> rights" where
  "setQueenSide c v cr = (if c = White then cr\<lparr>whiteQueenSide := v\<rparr> else cr\<lparr>blackQueenSide := v\<rparr>)"

definition mk :: "ptype \<Rightarrow> color \<Rightarrow> piece" where
  "mk t c = \<lparr>ptype = t, color = c\<rparr>"

definition idx8 :: "int list" where
  "idx8 = [0, 1, 2, 3, 4, 5, 6, 7]"

text \<open>All squares in the order of the nested iteration \<open>for row ... for col\<close>.\<close>

definition allSquares :: "square list" where
  "allSquares = concat (map (\<lambda>r. map (\<lambda>c. (r, c)) idx8) idx8)"

definition emptyBoard :: board where
  "emptyBoard = replicate 8 (replicate 8 None)"

definition createInitialBoard :: board where
  "createInitialBoard =
    [ map (\<lambda>t. Some (mk t Black)) [Rook, Knight, Bishop, Queen, King, Bishop, Knight, Rook],
      replicate 8 (Some (mk Pawn Black)),
      replicate 8 None, replicate 8 None, replicate 8 None, replicate 8 None,
      replicate 8 (Some (mk Pawn White)),
      map (\<lambda>t. Some (mk t White)) [Rook, Knight, Bishop, Queen, King, Bishop, Knight, Rook] ]"

definition reset :: engine where
  "reset = \<lparr> board = createInitialBoard, currentPlayer = White, moveHistory = [],
             capturedWhite = [], capturedBlack = [],
             castlingRights = \<lparr>whiteKingSide = True, whiteQueenSide = True,
                                blackKingSide = True, blackQueenSide = True\<rparr>,
             enPassantTarget = None, halfMoveClock = Num 0, fullMoveNumber = Num 1,
             positionHistory = [], gameState = Playing \<rparr>"

definition inBoard :: "int \<Rightarrow> int \<Rightarrow> bool" where
  "inBoard r c \<longleftrightarrow> 0 \<le> r \<and> r < 8 \<and> 0 \<le> c \<and> c < 8"

definition getPiece :: "board \<Rightarrow> int \<Rightarrow> int \<Rightarrow> piece option" where
  "getPiece b r c = (if r < 0 \<or> r > 7 \<or> c < 0 \<or> c > 7 then None else b ! nat r ! nat c)"

text \<open>
  \<open>setPiece\<close> is \<open>this.board[row][col] = piece\<close>. The source has no bounds check and
  would throw (row out of range) or grow the row (column out of range); the targets of
  the generated moves lie inside the board (lemma \<open>pseudo_inBoard\<close> below), and
  outside it the model leaves the board as it is.
\<close>

definition setPiece :: "int \<Rightarrow> int \<Rightarrow> piece option \<Rightarrow> board \<Rightarrow> board" where
  "setPiece r c p b = (if inBoard r c then b[nat r := (b ! nat r)[nat c := p]] else b)"

definition setPieceE :: "int \<Rightarrow> int \<Rightarrow> piece option \<Rightarrow> engine \<Rightarrow> engine" where
  "setPieceE r c p e = e\<lparr>board := setPiece r c p (board e)\<rparr>"

definition isPiece :: "board \<Rightarrow> ptype \<Rightarrow> color \<Rightarrow> square \<Rightarrow> bool" where
  "isPiece b t cl s = (case getPiece b (fst s) (snd s) of
      None \<Rightarrow> False | Some p \<Rightarrow> ptype p = t \<and> color p = cl)"

definition findKing :: "board \<Rightarrow> color \<Rightarrow> square option" where
  "findKing b cl = find (isPiece b King cl) allSquares"

subsection \<open>Attack detection\<close>

text \<open>
  The \<open>while (r >= 0 && r < 8 && c >= 0 && c < 8)\<close> loop of \<open>isSquareAttacked\<close> along
  one direction: true when the first occupied square holds an attacker of type \<open>t\<close> or a
  queen. The source only uses the eight unit directions; a zero direction (which would
  not leave the loop) is answered with \<open>False\<close>.
\<close>

function rayAttacked :: "board \<Rightarrow> color \<Rightarrow> ptype \<Rightarrow> int \<Rightarrow> int \<Rightarrow> int \<Rightarrow> int \<Rightarrow> bool" where
  "rayAttacked b ac t r c dr dc =
     (if inBoard r c \<and> (dr \<noteq> 0 \<or> dc \<noteq> 0) then
        (case getPiece b r c of
           Some p \<Rightarrow> color p = ac \<and> (ptype p = t \<or> ptype p = Queen)
         | None \<Rightarrow> rayAttacked b ac t (r + dr) (c + dc) dr dc)
      else False)"
  by pat_completeness auto
termination
  by (relation "measure (\<lambda>(b, ac, t, r, c, dr, dc).
        if dr > 0 then nat (8 - r) else if dr < 0 then nat (r + 1)
        else if dc > 0 then nat (8 - c) else nat (c + 1))")
     (auto simp: inBoard_def)

declare rayAttacked.simps [simp del]

definition knightOffsets :: "(int \<times> int) list" where
  "knightOffsets = [(-2, -1), (-2, 1), (-1, -2), (-1, 2), (1, -2), (1, 2), (2, -1), (2, 1)]"

definition kingOffsets :: "(int \<times> int) list" where
  "kingOffsets = [(-1, -1), (-1, 0), (-1, 1), (0, -1), (0, 1), (1, -1), (1, 0), (1, 1)]"

definition rookDirs :: "(int \<times> int) list" where
  "rookDirs = [(-1, 0), (1, 0), (0, -1), (0, 1)]"

definition bishopDirs :: "(int \<times> int) list" where
  "bishopDirs = [(-1, -1), (-1, 1), (1, -1), (1, 1)]"

definition isSquareAttacked :: "board \<Rightarrow> int \<Rightarrow> int \<Rightarrow> color \<Rightarrow> bool" where
  "isSquareAttacked b r c ac =
    (let pawnDir = (if ac = White then 1 else -1) in
     if list_ex (isPiece b Pawn ac) [(r + pawnDir, c - 1), (r + pawnDir, c + 1)] then True
     else if list_ex (\<lambda>(dr, dc). isPiece b Knight ac (r + dr, c + dc)) knightOffsets then True
     else if list_ex (\<lambda>(dr, dc). isPiece b King ac (r + dr, c + dc)) kingOffsets then True
     else if list_ex (\<lambda>(dr, dc). rayAttacked b ac Rook (r + dr) (c + dc) dr dc) rookDirs then True
     else if list_ex (\<lambda>(dr, dc). rayAttacked b ac Bishop (r + dr) (c + dc) dr dc) bishopDirs then True
     else False)"

definition isInCheck :: "board \<Rightarrow> color \<Rightarrow> bool" where
  "isInCheck b cl = (case findKing b cl of
      None \<Rightarrow> False
    | Some (kr, kc) \<Rightarrow> isSquareAttacked b kr kc (other cl))"

subsection \<open>Pseudo-legal move generation\<close>

definition mv :: "int \<Rightarrow> int \<Rightarrow> move" where
  "mv r c = \<lparr>row = r, col = c, capture = False, promotion = False, enPassant = False,
             castling = None, doublePush = False\<rparr>"

definition isEnemy :: "piece option \<Rightarrow> color \<Rightarrow> bool" where
  "isEnemy tp cl = (case tp of None \<Rightarrow> False | Some p \<Rightarrow> color p \<noteq> cl)"

definition pawnCaptures :: "engine \<Rightarrow> int \<Rightarrow> int \<Rightarrow> color \<Rightarrow> int \<Rightarrow> move list" where
  "pawnCaptures e r c cl dc =
    (let direction = (if cl = White then -1 else 1);
         promotionRow = (if cl = White then 0 else 7);
         newRow = r + direction;
         newCol = c + dc
     in if newCol \<ge> 0 \<and> newCol < 8 then
          (if isEnemy (getPiece (board e) newRow newCol) cl then
             (if newRow = promotionRow
              then [(mv newRow newCol)\<lparr>capture := True, promotion := True\<rparr>]
              else [(mv newRow newCol)\<lparr>capture := True\<rparr>])
           else [])
          @ (if enPassantTarget e = Some (newRow, newCol)
             then [(mv newRow newCol)\<lparr>enPassant := True, capture := True\<rparr>] else [])
        else [])"

definition getPawnMoves :: "engine \<Rightarrow> int \<Rightarrow> int \<Rightarrow> color \<Rightarrow> move list" where
  "getPawnMoves e r c cl =
    (let direction = (if cl = White then -1 else 1);
         startRow = (if cl = White then 6 else 1);
         promotionRow = (if cl = White then 0 else 7);
         newRow = r + direction
     in (if newRow \<ge> 0 \<and> newRow < 8 \<and> getPiece (board e) newRow c = None then
           (if newRow = promotionRow then [(mv newRow c)\<lparr>promotion := True\<rparr>] else [mv newRow c])
           @ (if r = startRow \<and> getPiece (board e) (r + 2 * direction) c = None
              then [(mv (r + 2 * direction) c)\<lparr>doublePush := True\<rparr>] else [])
         else [])
        @ pawnCaptures e r c cl (-1) @ pawnCaptures e r c cl 1)"

definition stepMoves :: "board \<Rightarrow> int \<Rightarrow> int \<Rightarrow> color \<Rightarrow> (int \<times> int) list \<Rightarrow> move list" where
  "stepMoves b r c cl offsets = concat (map (\<lambda>(dr, dc).
      let newRow = r + dr; newCol = c + dc in
      if newRow \<ge> 0 \<and> newRow < 8 \<and> newCol \<ge> 0 \<and> newCol < 8 then
        (let targetPiece = getPiece b newRow newCol in
         if targetPiece = None \<or> isEnemy targetPiece cl
         then [(mv newRow newCol)\<lparr>capture := isEnemy targetPiece cl\<rparr>] else [])
      else []) offsets)"

definition getKnightMoves :: "engine \<Rightarrow> int \<Rightarrow> int \<Rightarrow> color \<Rightarrow> move list" where
  "getKnightMoves e r c cl = stepMoves (board e) r c cl knightOffsets"

text \<open>The inner \<open>while\<close> loop of \<open>getSlidingMoves\<close> for one direction.\<close>

function slide :: "board \<Rightarrow> color \<Rightarrow> int \<Rightarrow> int \<Rightarrow> int \<Rightarrow> int \<Rightarrow> move list" where
  "slide b cl r c dr dc =
     (if inBoard r c \<and> (dr \<noteq> 0 \<or> dc \<noteq> 0) then
        (case getPiece b r c of
           None \<Rightarrow> mv r c # slide b cl (r + dr) (c + dc) dr dc
         | Some p \<Rightarrow> (if color p \<noteq> cl then [(mv r c)\<lparr>capture := True\<rparr>] else []))
      else [])"
  by pat_completeness auto
termination
  by (relation "measure (\<lambda>(b, cl, r, c, dr, dc).
        if dr > 0 then nat (8 - r) else if dr < 0 then nat (r + 1)
        else if dc > 0 then nat (8 - c) else nat (c + 1))")
     (auto simp: inBoard_def)

declare slide.simps [simp del]

definition getSlidingMoves :: "board \<Rightarrow> int \<Rightarrow> int \<Rightarrow> color \<Rightarrow> (int \<times> int) list \<Rightarrow> move list" where
  "getSlidingMoves b r c cl dirs = concat (map (\<lambda>(dr, dc). slide b cl (r + dr) (c + dc) dr dc) dirs)"

definition getBishopMoves :: "engine \<Rightarrow> int \<Rightarrow> int \<Rightarrow> color \<Rightarrow> move list" where
  "getBishopMoves e r c cl = getSlidingMoves (board e) r c cl bishopDirs"

definition getRookMoves :: "engine \<Rightarrow> int \<Rightarrow> int \<Rightarrow> color \<Rightarrow> move list" where
  "getRookMoves e r c cl = getSlidingMoves (board e) r c cl rookDirs"

definition getQueenMoves :: "engine \<Rightarrow> int \<Rightarrow> int \<Rightarrow> color \<Rightarrow> move list" where
  "getQueenMoves e r c cl = getBishopMoves e r c cl @ getRookMoves e r c cl"

definition castlingMoves :: "engine \<Rightarrow> color \<Rightarrow> move list" where
  "castlingMoves e cl =
    (let b = board e in
     if \<not> isInCheck b cl then
       (let baseRow = (if cl = White then 7 else 0);
            opponentColor = other cl
        in (if kingSide (castlingRights e) cl then
              (if getPiece b baseRow 5 = None \<and> getPiece b baseRow 6 = None
                  \<and> \<not> isSquareAttacked b baseRow 5 opponentColor
                  \<and> \<not> isSquareAttacked b baseRow 6 opponentColor
               then [(mv baseRow 6)\<lparr>castling := Some KingSide\<rparr>] else [])
            else [])
           @ (if queenSide (castlingRights e) cl then
              (if getPiece b baseRow 1 = None \<and> getPiece b baseRow 2 = None
                  \<and> getPiece b baseRow 3 = None
                  \<and> \<not> isSquareAttacked b baseRow 2 opponentColor
                  \<and> \<not> isSquareAttacked b baseRow 3 opponentColor
               then [(mv baseRow 2)\<lparr>castling := Some QueenSide\<rparr>] else [])
            else []))
     else [])"

definition getKingMoves :: "engine \<Rightarrow> int \<Rightarrow> int \<Rightarrow> color \<Rightarrow> move list" where
  "getKingMoves e r c cl = stepMoves (board e) r c cl kingOffsets @ castlingMoves e cl"

definition getPseudoLegalMoves :: "engine \<Rightarrow> int \<Rightarrow> int \<Rightarrow> piece \<Rightarrow> move list" where
  "getPseudoLegalMoves e r c p =
    (case ptype p of
       Pawn \<Rightarrow> getPawnMoves e r c (color p)
     | Knight \<Rightarrow> getKnightMoves e r c (color p)
     | Bishop \<Rightarrow> getBishopMoves e r c (color p)
     | Rook \<Rightarrow> getRookMoves e r c (color p)
     | Queen \<Rightarrow> getQueenMoves e r c (color p)
     | King \<Rightarrow> getKingMoves e r c (color p)
     | BoolTrue \<Rightarrow> [])"

subsection \<open>Legality filter\<close>

text \<open>
  \<open>isMoveLegal\<close> mutates the board, tests for check and reverts, so it is modelled with
  the engine passed in and returned.
\<close>

definition isMoveLegal :: "int \<Rightarrow> int \<Rightarrow> int \<Rightarrow> int \<Rightarrow> piece \<Rightarrow> engine \<Rightarrow> bool \<times> engine" where
  "isMoveLegal fromRow fromCol toRow toCol p e =
    (let originalPiece = getPiece (board e) toRow toCol;
         originalEnPassant = enPassantTarget e;
         e1 = setPieceE toRow toCol (Some p) e;
         e2 = setPieceE fromRow fromCol None e1;
         isEp = (ptype p = Pawn \<and> enPassantTarget e2 = Some (toRow, toCol));
         capturedRow = (if color p = White then toRow + 1 else toRow - 1);
         capturedEnPassant = (if isEp then getPiece (board e2) capturedRow toCol else None);
         e3 = (if isEp then setPieceE capturedRow toCol None e2 else e2);
         inCheck = isInCheck (board e3) (color p);
         e4 = setPieceE fromRow fromCol (Some p) e3;
         e5 = setPieceE toRow toCol originalPiece e4;
         e6 = e5\<lparr>enPassantTarget := originalEnPassant\<rparr>;
         e7 = (if capturedEnPassant \<noteq> None then setPieceE capturedRow toCol capturedEnPassant e6
               else e6)
     in (\<not> inCheck, e7))"

fun filterLegal :: "int \<Rightarrow> int \<Rightarrow> piece \<Rightarrow> move list \<Rightarrow> engine \<Rightarrow> move list \<times> engine" where
  "filterLegal r c p [] e = ([], e)"
| "filterLegal r c p (m # ms) e =
    (let res = isMoveLegal r c (row m) (col m) p e;
         rest = filterLegal r c p ms (snd res)
     in (if fst res then m # fst rest else fst rest, snd rest))"

definition getValidMoves :: "int \<Rightarrow> int \<Rightarrow> engine \<Rightarrow> move list \<times> engine" where
  "getValidMoves r c e =
    (case getPiece (board e) r c of
       None \<Rightarrow> ([], e)
     | Some p \<Rightarrow>
        if color p \<noteq> currentPlayer e then ([], e)
        else filterLegal r c p (getPseudoLegalMoves e r c p) e)"

definition toLegalMove :: "square \<Rightarrow> piece \<Rightarrow> move \<Rightarrow> legalMove" where
  "toLegalMove s p m = move.extend m
     (legalMove.fields s (row m, col m) p)"

fun allLegalLoop :: "square list \<Rightarrow> engine \<Rightarrow> legalMove list \<times> engine" where
  "allLegalLoop [] e = ([], e)"
| "allLegalLoop (s # ss) e =
    (case getPiece (board e) (fst s) (snd s) of
       None \<Rightarrow> allLegalLoop ss e
     | Some p \<Rightarrow>
        if color p = currentPlayer e then
          (let pieceMoves = getValidMoves (fst s) (snd s) e;
               rest = allLegalLoop ss (snd pieceMoves)
           in (map (toLegalMove s p) (fst pieceMoves) @ fst rest, snd rest))
        else allLegalLoop ss e)"

definition getAllLegalMoves :: "engine \<Rightarrow> legalMove list \<times> engine" where
  "getAllLegalMoves e = allLegalLoop allSquares e"

subsection \<open>Terminal-state tests\<close>

text \<open>
  \<open>hasLegalMoves\<close> sets \<open>currentPlayer\<close> to the colour asked about around each call of
  \<open>getValidMoves\<close> and puts the original player back.
\<close>

fun hasLegalLoop :: "color \<Rightarrow> square list \<Rightarrow> engine \<Rightarrow> bool \<times> engine" where
  "hasLegalLoop cl [] e = (False, e)"
| "hasLegalLoop cl (s # ss) e =
    (case getPiece (board e) (fst s) (snd s) of
       None \<Rightarrow> hasLegalLoop cl ss e
     | Some p \<Rightarrow>
        if color p = cl then
          (let moves = getValidMoves (fst s) (snd s) (e\<lparr>currentPlayer := cl\<rparr>);
               e1 = (snd moves)\<lparr>currentPlayer := currentPlayer e\<rparr>
           in if fst moves \<noteq> [] then (True, e1) else hasLegalLoop cl ss e1)
        else hasLegalLoop cl ss e)"

definition hasLegalMoves :: "color \<Rightarrow> engine \<Rightarrow> bool \<times> engine" where
  "hasLegalMoves cl e = hasLegalLoop cl allSquares e"

definition isCheckmate :: "color \<Rightarrow> engine \<Rightarrow> bool \<times> engine" where
  "isCheckmate cl e =
    (if \<not> isInCheck (board e) cl then (False, e)
     else (let h = hasLegalMoves cl e in (\<not> fst h, snd h)))"

definition isStalemate :: "color \<Rightarrow> engine \<Rightarrow> bool \<times> engine" where
  "isStalemate cl e =
    (if isInCheck (board e) cl then (False, e)
     else (let h = hasLegalMoves cl e in (\<not> fst h, snd h)))"

definition nonKings :: "board \<Rightarrow> color \<Rightarrow> (ptype \<times> int \<times> int) list" where
  "nonKings b cl = concat (map (\<lambda>(r, c).
      case getPiece b r c of
        None \<Rightarrow> []
      | Some p \<Rightarrow> if ptype p \<noteq> King \<and> color p = cl then [(ptype p, r, c)] else []) allSquares)"

definition isInsufficientMaterial :: "board \<Rightarrow> bool" where
  "isInsufficientMaterial b =
    (let whitePieces = nonKings b White;
         blackPieces = nonKings b Black
     in if length whitePieces = 0 \<and> length blackPieces = 0 then True
        else if length whitePieces = 0 \<and> length blackPieces = 1
                \<and> (fst (hd blackPieces) = Bishop \<or> fst (hd blackPieces) = Knight) then True
        else if length blackPieces = 0 \<and> length whitePieces = 1
                \<and> (fst (hd whitePieces) = Bishop \<or> fst (hd whitePieces) = Knight) then True
        else if length whitePieces = 1 \<and> length blackPieces = 1
                \<and> fst (hd whitePieces) = Bishop \<and> fst (hd blackPieces) = Bishop
                \<and> (fst (snd (hd whitePieces)) + snd (snd (hd whitePieces))) mod 2
                    = (fst (snd (hd blackPieces)) + snd (snd (hd blackPieces))) mod 2 then True
        else False)"

subsection \<open>Numbers and strings\<close>

definition digitChar :: "nat \<Rightarrow> char" where
  "digitChar n = ''0123456789'' ! n"

function natStr :: "nat \<Rightarrow> string" where
  "natStr n = (if n < 10 then [digitChar n] else natStr (n div 10) @ [digitChar (n mod 10)])"
  by pat_completeness auto
termination
  by (relation "measure id") auto

declare natStr.simps [simp del]

definition intStr :: "int \<Rightarrow> string" where
  "intStr i = (if i < 0 then CHR ''-'' # natStr (nat (- i)) else natStr (nat i))"

definition jsnumStr :: "jsnum \<Rightarrow> string" where
  "jsnumStr x = (case x of NaN \<Rightarrow> ''NaN'' | Num i \<Rightarrow> intStr i)"

definition jsInc :: "jsnum \<Rightarrow> jsnum" where
  "jsInc x = (case x of NaN \<Rightarrow> NaN | Num i \<Rightarrow> Num (i + 1))"

definition jsGe :: "jsnum \<Rightarrow> int \<Rightarrow> bool" where
  "jsGe x k = (case x of NaN \<Rightarrow> False | Num i \<Rightarrow> i \<ge> k)"

definition typeStr :: "ptype \<Rightarrow> string" where
  "typeStr t = (case t of Pawn \<Rightarrow> ''p'' | Knight \<Rightarrow> ''n'' | Bishop \<Rightarrow> ''b'' | Rook \<Rightarrow> ''r''
                 | Queen \<Rightarrow> ''q'' | King \<Rightarrow> ''k'' | BoolTrue \<Rightarrow> ''true'')"

definition colorStr :: "color \<Rightarrow> string" where
  "colorStr c = (if c = White then ''white'' else ''black'')"

definition getPositionKey :: "engine \<Rightarrow> string" where
  "getPositionKey e =
     concat (map (\<lambda>(r, c). case getPiece (board e) r c of
                    Some p \<Rightarrow> hd (colorStr (color p)) # typeStr (ptype p)
                  | None \<Rightarrow> ''--'') allSquares)
     @ colorStr (currentPlayer e)
     @ (if whiteKingSide (castlingRights e) then ''K'' else [])
     @ (if whiteQueenSide (castlingRights e) then ''Q'' else [])
     @ (if blackKingSide (castlingRights e) then ''k'' else [])
     @ (if blackQueenSide (castlingRights e) then ''q'' else [])
     @ (case enPassantTarget e of None \<Rightarrow> [] | Some (r, c) \<Rightarrow> intStr r @ intStr c)"

text \<open>The repetition loop of \<open>isDraw\<close>: count and leave as soon as three are seen.\<close>

fun repetitionLoop :: "string \<Rightarrow> nat \<Rightarrow> string list \<Rightarrow> bool" where
  "repetitionLoop cur reps [] = False"
| "repetitionLoop cur reps (pos # rest) =
    (let reps1 = (if pos = cur then reps + 1 else reps)
     in if reps1 \<ge> 3 then True else repetitionLoop cur reps1 rest)"

definition isDraw :: "engine \<Rightarrow> bool" where
  "isDraw e =
    (if jsGe (halfMoveClock e) 100 then True
     else if repetitionLoop (getPositionKey e) 0 (positionHistory e) then True
     else if isInsufficientMaterial (board e) then True
     else False)"

subsection \<open>Applying a move\<close>

definition pushCaptured :: "color \<Rightarrow> piece \<Rightarrow> engine \<Rightarrow> engine" where
  "pushCaptured cl p e =
    (if cl = White then e\<lparr>capturedWhite := capturedWhite e @ [p]\<rparr>
     else e\<lparr>capturedBlack := capturedBlack e @ [p]\<rparr>)"

definition epAfter :: "piece \<Rightarrow> int \<Rightarrow> int \<Rightarrow> int \<Rightarrow> square option" where
  "epAfter p fromRow fromCol toRow =
    (if ptype p = Pawn \<and> \<bar>toRow - fromRow\<bar> = 2
     then Some (if color p = White then fromRow - 1 else fromRow + 1, fromCol)
     else None)"

text \<open>The three blocks under \<open>// Update castling rights\<close> in \<open>makeMove\<close>.\<close>

definition updateRights :: "piece \<Rightarrow> int \<Rightarrow> int \<Rightarrow> piece option \<Rightarrow> rights \<Rightarrow> rights" where
  "updateRights p fromCol toCol capturedPiece cr =
    (let cr1 = (if ptype p = King
                then setQueenSide (color p) False (setKingSide (color p) False cr) else cr);
         cr2 = (if ptype p = Rook \<and> fromCol = 0 then setQueenSide (color p) False cr1 else cr1);
         cr3 = (if ptype p = Rook \<and> fromCol = 7 then setKingSide (color p) False cr2 else cr2)
     in case capturedPiece of
          None \<Rightarrow> cr3
        | Some cp \<Rightarrow>
            if ptype cp = Rook then
              (let cr4 = (if toCol = 0 then setQueenSide (color cp) False cr3 else cr3)
               in if toCol = 7 then setKingSide (color cp) False cr4 else cr4)
            else cr3)"

text \<open>
  Lines 443 to 517 of \<open>makeMove\<close>: capture, castling rook, relocation, en-passant target,
  castling rights, clocks, side to move, repetition key. Returns the captured piece.
\<close>

definition applyMove ::
  "int \<Rightarrow> int \<Rightarrow> int \<Rightarrow> int \<Rightarrow> ptype \<Rightarrow> piece \<Rightarrow> move \<Rightarrow> engine \<Rightarrow> piece option \<times> engine" where
  "applyMove fromRow fromCol toRow toCol promotionPiece p m e =
    (let capturedRow = (if color p = White then toRow + 1 else toRow - 1);
         capturedPiece = (if enPassant m then getPiece (board e) capturedRow toCol
                          else getPiece (board e) toRow toCol);
         e1 = (if enPassant m then setPieceE capturedRow toCol None e else e);
         e2 = (case capturedPiece of None \<Rightarrow> e1 | Some cp \<Rightarrow> pushCaptured (color p) cp e1);
         baseRow = (if color p = White then 7 else 0);
         e3 = (case castling m of
                 None \<Rightarrow> e2
               | Some KingSide \<Rightarrow>
                   setPieceE baseRow 7 None (setPieceE baseRow 5 (getPiece (board e2) baseRow 7) e2)
               | Some QueenSide \<Rightarrow>
                   setPieceE baseRow 0 None (setPieceE baseRow 3 (getPiece (board e2) baseRow 0) e2));
         e4 = (if promotion m then setPieceE toRow toCol (Some (mk promotionPiece (color p))) e3
               else setPieceE toRow toCol (Some p) e3);
         e5 = setPieceE fromRow fromCol None e4;
         e6 = e5\<lparr>enPassantTarget := epAfter p fromRow fromCol toRow\<rparr>;
         e7 = e6\<lparr>castlingRights := updateRights p fromCol toCol capturedPiece (castlingRights e6)\<rparr>;
         e8 = e7\<lparr>halfMoveClock := (if ptype p = Pawn \<or> capturedPiece \<noteq> None then Num 0
                                     else jsInc (halfMoveClock e7))\<rparr>;
         e9 = (if color p = Black then e8\<lparr>fullMoveNumber := jsInc (fullMoveNumber e8)\<rparr> else e8);
         e10 = e9\<lparr>currentPlayer := other (currentPlayer e9)\<rparr>;
         e11 = e10\<lparr>positionHistory := positionHistory e10 @ [getPositionKey e10]\<rparr>
     in (capturedPiece, e11))"

text \<open>
  The block under \<open>// Check game state\<close> in \<open>makeMove\<close>: returns the \<open>check\<close> and
  \<open>checkmate\<close> flags of the move record and the engine with \<open>gameState\<close> assigned.
\<close>

definition checkGameState :: "engine \<Rightarrow> (bool \<times> bool) \<times> engine" where
  "checkGameState e =
    (let opponentColor = currentPlayer e in
     if isInCheck (board e) opponentColor then
       (let mate = isCheckmate opponentColor e in
        if fst mate then ((True, True), (snd mate)\<lparr>gameState := Checkmate\<rparr>)
        else ((True, False), (snd mate)\<lparr>gameState := Check\<rparr>))
     else
       (let stale = isStalemate opponentColor e in
        if fst stale then ((False, False), (snd stale)\<lparr>gameState := Stalemate\<rparr>)
        else if isDraw (snd stale) then ((False, False), (snd stale)\<lparr>gameState := Draw\<rparr>)
        else ((False, False), (snd stale)\<lparr>gameState := Playing\<rparr>)))"

definition makeMove ::
  "int \<Rightarrow> int \<Rightarrow> int \<Rightarrow> int \<Rightarrow> ptype \<Rightarrow> engine \<Rightarrow> moveRecord option \<times> engine" where
  "makeMove fromRow fromCol toRow toCol promotionPiece e =
    (case getPiece (board e) fromRow fromCol of
       None \<Rightarrow> (None, e)
     | Some p \<Rightarrow>
        (let validMoves = getValidMoves fromRow fromCol e in
         case find (\<lambda>m. row m = toRow \<and> col m = toCol) (fst validMoves) of
           None \<Rightarrow> (None, snd validMoves)
         | Some m \<Rightarrow>
            (let applied = applyMove fromRow fromCol toRow toCol promotionPiece p m (snd validMoves);
                 state = checkGameState (snd applied);
                 moveRecord = \<lparr> mr_from = (fromRow, fromCol), mr_to = (toRow, toCol),
                                mr_piece = p, mr_captured = fst applied,
                                mr_castling = castling m, mr_enPassant = enPassant m,
                                mr_promotion = (if promotion m then Some promotionPiece else None),
                                mr_check = fst (fst state), mr_checkmate = snd (fst state) \<rparr>
             in (Some moveRecord,
                 (snd state)\<lparr>moveHistory := moveHistory (snd state) @ [moveRecord]\<rparr>))))"

subsection \<open>Undo\<close>

fun removeFirst :: "('a \<Rightarrow> bool) \<Rightarrow> 'a list \<Rightarrow> 'a list" where
  "removeFirst P [] = []"
| "removeFirst P (x # xs) = (if P x then xs else x # removeFirst P xs)"

definition removeCaptured :: "color \<Rightarrow> ptype \<Rightarrow> engine \<Rightarrow> engine" where
  "removeCaptured cl t e =
    (if cl = White then e\<lparr>capturedWhite := removeFirst (\<lambda>p. ptype p = t) (capturedWhite e)\<rparr>
     else e\<lparr>capturedBlack := removeFirst (\<lambda>p. ptype p = t) (capturedBlack e)\<rparr>)"

definition epFromHistory :: "moveRecord list \<Rightarrow> square option" where
  "epFromHistory h =
    (if h \<noteq> [] then
       (let prevMove = last h
        in epAfter (mr_piece prevMove) (fst (mr_from prevMove)) (snd (mr_from prevMove))
             (fst (mr_to prevMove)))
     else None)"

definition undoMove :: "engine \<Rightarrow> moveRecord option \<times> engine" where
  "undoMove e =
    (if moveHistory e = [] then (None, e)
     else
      (let lastMove = last (moveHistory e);
           fromRow = fst (mr_from lastMove); fromCol = snd (mr_from lastMove);
           toRow = fst (mr_to lastMove); toCol = snd (mr_to lastMove);
           p = mr_piece lastMove;
           e1 = e\<lparr>moveHistory := butlast (moveHistory e),
                  positionHistory := butlast (positionHistory e)\<rparr>;
           e2 = setPieceE fromRow fromCol (Some p) e1;
           e3 = (if mr_promotion lastMove \<noteq> None
                 then setPieceE fromRow fromCol (Some (mk Pawn (color p))) e2 else e2);
           capturedRow = (if color p = White then toRow + 1 else toRow - 1);
           e4 = (if mr_enPassant lastMove
                 then setPieceE capturedRow toCol (mr_captured lastMove) (setPieceE toRow toCol None e3)
                 else setPieceE toRow toCol (mr_captured lastMove) e3);
           baseRow = (if color p = White then 7 else 0);
           e5 = (case mr_castling lastMove of
                   None \<Rightarrow> e4
                 | Some KingSide \<Rightarrow>
                     setPieceE baseRow 5 None (setPieceE baseRow 7 (getPiece (board e4) baseRow 5) e4)
                 | Some QueenSide \<Rightarrow>
                     setPieceE baseRow 3 None (setPieceE baseRow 0 (getPiece (board e4) baseRow 3) e4));
           e6 = (case mr_captured lastMove of
                   None \<Rightarrow> e5
                 | Some cp \<Rightarrow> removeCaptured (color p) (ptype cp) e5);
           e7 = e6\<lparr>currentPlayer := other (currentPlayer e6)\<rparr>;
           e8 = (if ptype p = King
                    \<and> list_all (\<lambda>m. \<not> (ptype (mr_piece m) = King \<and> color (mr_piece m) = color p))
                         (moveHistory e7)
                 then e7\<lparr>castlingRights :=
                         setQueenSide (color p) True (setKingSide (color p) True (castlingRights e7))\<rparr>
                 else e7);
           e9 = e8\<lparr>gameState := (if isInCheck (board e8) (currentPlayer e8) then Check else Playing)\<rparr>;
           e10 = e9\<lparr>enPassantTarget := epFromHistory (moveHistory e9)\<rparr>
       in (Some lastMove, e10)))"

subsection \<open>Clone and FEN\<close>

definition clone :: "engine \<Rightarrow> engine" where
  "clone e = \<lparr> board = board e, currentPlayer = currentPlayer e, moveHistory = [],
               capturedWhite = [], capturedBlack = [], castlingRights = castlingRights e,
               enPassantTarget = enPassantTarget e, halfMoveClock = halfMoveClock e,
               fullMoveNumber = fullMoveNumber e, positionHistory = [],
               gameState = gameState e \<rparr>"

text \<open>\<open>pieceMap[type + '_' + color]\<close>; a missing key concatenates as \<open>undefined\<close>.\<close>

definition fenLetter :: "piece \<Rightarrow> string" where
  "fenLetter p =
    (case ptype p of
       Pawn \<Rightarrow> (if color p = White then ''P'' else ''p'')
     | Knight \<Rightarrow> (if color p = White then ''N'' else ''n'')
     | Bishop \<Rightarrow> (if color p = White then ''B'' else ''b'')
     | Rook \<Rightarrow> (if color p = White then ''R'' else ''r'')
     | Queen \<Rightarrow> (if color p = White then ''Q'' else ''q'')
     | King \<Rightarrow> (if color p = White then ''K'' else ''k'')
     | BoolTrue \<Rightarrow> ''undefined'')"

fun fenRow :: "piece option list \<Rightarrow> nat \<Rightarrow> string" where
  "fenRow [] emptyCount = (if emptyCount > 0 then natStr emptyCount else [])"
| "fenRow (None # xs) emptyCount = fenRow xs (emptyCount + 1)"
| "fenRow (Some p # xs) emptyCount =
     (if emptyCount > 0 then natStr emptyCount else []) @ fenLetter p @ fenRow xs 0"

definition fenBoard :: "board \<Rightarrow> string" where
  "fenBoard b = concat (map (\<lambda>r. fenRow (map (\<lambda>c. b ! nat r ! nat c) idx8) 0
                                   @ (if r < 7 then ''/'' else [])) idx8)"

definition toFEN :: "engine \<Rightarrow> string" where
  "toFEN e =
    (let cr = castlingRights e;
         cs = (if whiteKingSide cr then ''K'' else []) @ (if whiteQueenSide cr then ''Q'' else [])
              @ (if blackKingSide cr then ''k'' else []) @ (if blackQueenSide cr then ''q'' else [])
     in fenBoard (board e)
        @ '' '' @ (if currentPlayer e = White then ''w'' else ''b'')
        @ '' '' @ (if cs = [] then ''-'' else cs)
        @ (case enPassantTarget e of
             Some (r, c) \<Rightarrow> '' '' @ [char_of (97 + c)] @ intStr (8 - r)
           | None \<Rightarrow> '' -'')
        @ '' '' @ jsnumStr (halfMoveClock e) @ '' '' @ jsnumStr (fullMoveNumber e))"

subsection \<open>Loading a FEN string\<close>

text \<open>
  Strings are lists of 8-bit characters. \<open>isSpace\<close> is the class \<open>\s\<close> of the regular
  expression and of \<open>trim\<close>, as far as it lies in that range: tab, line feed, vertical
  tab, form feed, carriage return, space and the no-break space.
\<close>

definition isSpace :: "char \<Rightarrow> bool" where
  "isSpace ch = ((of_char ch :: nat) \<in> {9, 10, 11, 12, 13, 32, 160})"

text \<open>The maximal runs of non-separator characters, in order.\<close>

fun tokens :: "(char \<Rightarrow> bool) \<Rightarrow> string \<Rightarrow> string \<Rightarrow> string list" where
  "tokens sep cur [] = (if cur = [] then [] else [cur])"
| "tokens sep cur (ch # cs) =
    (if sep ch then (if cur = [] then tokens sep [] cs else cur # tokens sep [] cs)
     else tokens sep (cur @ [ch]) cs)"

text \<open>\<open>fen.trim().split(/\s+/)\<close>: an empty trimmed string splits into one empty part.\<close>

definition splitWs :: "string \<Rightarrow> string list" where
  "splitWs s = (let ts = tokens isSpace [] s in if ts = [] then [ [] ] else ts)"

text \<open>\<open>position.split('/')\<close>: every separator ends a part, empty parts are kept.\<close>

fun splitOn :: "char \<Rightarrow> string \<Rightarrow> string \<Rightarrow> string list" where
  "splitOn sep cur [] = [cur]"
| "splitOn sep cur (ch # cs) =
    (if ch = sep then cur # splitOn sep [] cs else splitOn sep (cur @ [ch]) cs)"

definition pieceMap :: "char \<Rightarrow> piece option" where
  "pieceMap ch =
    (if ch = CHR ''r'' then Some (mk Rook Black) else if ch = CHR ''n'' then Some (mk Knight Black)
     else if ch = CHR ''b'' then Some (mk Bishop Black) else if ch = CHR ''q'' then Some (mk Queen Black)
     else if ch = CHR ''k'' then Some (mk King Black) else if ch = CHR ''p'' then Some (mk Pawn Black)
     else if ch = CHR ''R'' then Some (mk Rook White) else if ch = CHR ''N'' then Some (mk Knight White)
     else if ch = CHR ''B'' then Some (mk Bishop White) else if ch = CHR ''Q'' then Some (mk Queen White)
     else if ch = CHR ''K'' then Some (mk King White) else if ch = CHR ''P'' then Some (mk Pawn White)
     else None)"

definition isDigit18 :: "char \<Rightarrow> bool" where
  "isDigit18 ch \<longleftrightarrow> (49::nat) \<le> of_char ch \<and> (of_char ch :: nat) \<le> 56"

text \<open>
  The loop over the characters of one board row: returns whether it ran to the end, the
  column reached and the board written so far.
\<close>

fun parseRow :: "int \<Rightarrow> string \<Rightarrow> int \<Rightarrow> board \<Rightarrow> bool \<times> int \<times> board" where
  "parseRow r [] c b = (True, c, b)"
| "parseRow r (ch # cs) c b =
    (if isDigit18 ch then parseRow r cs (c + (of_char ch - 48)) b
     else (case pieceMap ch of
             Some p \<Rightarrow> (if c \<ge> 8 then (False, c, b)
                        else parseRow r cs (c + 1) (setPiece r c (Some p) b))
           | None \<Rightarrow> (False, c, b)))"

fun parseRows :: "int \<Rightarrow> string list \<Rightarrow> board \<Rightarrow> bool \<times> board" where
  "parseRows r [] b = (True, b)"
| "parseRows r (s # ss) b =
    (let res = parseRow r s 0 b in
     if \<not> fst res then (False, snd (snd res))
     else if fst (snd res) \<noteq> 8 then (False, snd (snd res))
     else parseRows (r + 1) ss (snd (snd res)))"

definition digitVal :: "char \<Rightarrow> nat" where
  "digitVal ch =
    (let n = (of_char ch :: nat) in
     if 48 \<le> n \<and> n \<le> 57 then n - 48
     else if 97 \<le> n \<and> n \<le> 122 then n - 87
     else if 65 \<le> n \<and> n \<le> 90 then n - 55
     else 99)"

text \<open>
  \<open>parseInt(s)\<close> without radix: leading white space, a sign, \<open>0x\<close> for base sixteen, then
  the longest run of digits; \<open>NaN\<close> when that run is empty.
\<close>

definition parseInt :: "string \<Rightarrow> jsnum" where
  "parseInt s =
    (let s1 = dropWhile isSpace s;
         neg = (case s1 of [] \<Rightarrow> False | ch # _ \<Rightarrow> ch = CHR ''-'');
         s2 = (case s1 of [] \<Rightarrow> [] | ch # cs \<Rightarrow> if ch = CHR ''+'' \<or> ch = CHR ''-'' then cs else s1);
         hex = (case s2 of a # x # _ \<Rightarrow> a = CHR ''0'' \<and> (x = CHR ''x'' \<or> x = CHR ''X'') | _ \<Rightarrow> False);
         s3 = (if hex then drop 2 s2 else s2);
         radix = (if hex then 16 else 10);
         ds = takeWhile (\<lambda>ch. digitVal ch < radix) s3;
         v = foldl (\<lambda>a ch. a * int radix + int (digitVal ch)) 0 ds
     in if ds = [] then NaN else Num (if neg then - v else v))"

definition parseCastling :: "string \<Rightarrow> rights" where
  "parseCastling cs =
    (if cs = ''-'' then \<lparr>whiteKingSide = False, whiteQueenSide = False,
                         blackKingSide = False, blackQueenSide = False\<rparr>
     else foldl (\<lambda>cr ch.
            if ch = CHR ''K'' then cr\<lparr>whiteKingSide := True\<rparr>
            else if ch = CHR ''Q'' then cr\<lparr>whiteQueenSide := True\<rparr>
            else if ch = CHR ''k'' then cr\<lparr>blackKingSide := True\<rparr>
            else if ch = CHR ''q'' then cr\<lparr>blackQueenSide := True\<rparr>
            else cr)
          \<lparr>whiteKingSide = False, whiteQueenSide = False,
           blackKingSide = False, blackQueenSide = False\<rparr> cs)"

definition parseEnPassant :: "string \<Rightarrow> square option" where
  "parseEnPassant ep =
    (if ep \<noteq> [] \<and> ep \<noteq> ''-'' then
       (let file = int (of_char (hd ep)) - 97;
            d = (case ep of _ # x # _ \<Rightarrow> parseInt [x] | _ \<Rightarrow> NaN)
        in case d of
             NaN \<Rightarrow> None
           | Num k \<Rightarrow> (let rank = 8 - k in
                        if file \<ge> 0 \<and> file < 8 \<and> rank \<ge> 0 \<and> rank < 8 then Some (rank, file)
                        else None))
     else None)"

definition loadFromFEN :: "string \<Rightarrow> engine \<Rightarrow> bool \<times> engine" where
  "loadFromFEN fen e =
    (let parts = splitWs fen in
     if length parts < 4 then (False, e)
     else
      (let e1 = e\<lparr>board := emptyBoard\<rparr>;
           rows = splitOn CHR ''/'' [] (parts ! 0)
       in if length rows \<noteq> 8 then (False, e1)
          else
           (let parsed = parseRows 0 rows (board e1) in
                if \<not> fst parsed then (False, e1\<lparr>board := snd parsed\<rparr>)
                else
                 (let e2 = e1\<lparr> board := snd parsed,
                               currentPlayer := (if parts ! 1 = ''w'' then White else Black),
                               castlingRights := parseCastling (parts ! 2),
                               enPassantTarget := parseEnPassant (parts ! 3),
                               halfMoveClock := (if length parts > 4 then parseInt (parts ! 4) else Num 0),
                               fullMoveNumber := (if length parts > 5 then parseInt (parts ! 5) else Num 1),
                               moveHistory := [], capturedWhite := [], capturedBlack := [],
                               positionHistory := [], gameState := Playing \<rparr>
                  in (True, if isInCheck (board e2) (currentPlayer e2)
                            then e2\<lparr>gameState := Check\<rparr> else e2)))))"

section \<open>The search engine (ChessAI)\<close>

text \<open>
  Scores are JavaScript numbers: integers, \<open>-Infinity\<close> and \<open>Infinity\<close> in the search,
  and integers plus a random offset at the root. The offset is a floating-point number
  in the source and a rational here; with difficulty \<open>hard\<close> no offset is drawn.
\<close>

datatype 'a ext = NegInf | Fin 'a | PosInf

instantiation ext :: (linorder) linorder
begin

fun less_eq_ext :: "'a ext \<Rightarrow> 'a ext \<Rightarrow> bool" where
  "less_eq_ext NegInf y = True"
| "less_eq_ext (Fin a) NegInf = False"
| "less_eq_ext (Fin a) (Fin b) = (a \<le> b)"
| "less_eq_ext (Fin a) PosInf = True"
| "less_eq_ext PosInf PosInf = True"
| "less_eq_ext PosInf y = False"

definition less_ext :: "'a ext \<Rightarrow> 'a ext \<Rightarrow> bool" where
  "less_ext x y \<longleftrightarrow> x \<le> y \<and> \<not> y \<le> x"

instance
proof
  fix x y z :: "'a ext"
  show "(x < y) = (x \<le> y \<and> \<not> y \<le> x)" by (simp add: less_ext_def)
  show "x \<le> x" by (cases x) auto
  show "x \<le> y \<Longrightarrow> y \<le> z \<Longrightarrow> x \<le> z" by (cases x; cases y; cases z) auto
  show "x \<le> y \<Longrightarrow> y \<le> x \<Longrightarrow> x = y" by (cases x; cases y) auto
  show "x \<le> y \<or> y \<le> x" by (cases x; cases y) auto
qed

end

datatype difficulty = Easy | Medium | Hard | OtherDifficulty

text \<open>
  The configuration fields of a \<open>ChessAI\<close>. \<open>depth\<close> is a natural number: \<open>setDifficulty\<close>
  only assigns 2, 3 or 4 and the search counts it down by one per ply.
\<close>

record ai =
  difficulty :: difficulty
  depth :: nat
  randomFactor :: rat

definition setDifficulty :: "difficulty \<Rightarrow> ai" where
  "setDifficulty d =
    (case d of
       Easy \<Rightarrow> \<lparr>difficulty = d, depth = 2, randomFactor = 3 / 10\<rparr>
     | Medium \<Rightarrow> \<lparr>difficulty = d, depth = 3, randomFactor = 5 / 100\<rparr>
     | Hard \<Rightarrow> \<lparr>difficulty = d, depth = 4, randomFactor = 0\<rparr>
     | OtherDifficulty \<Rightarrow> \<lparr>difficulty = d, depth = 3, randomFactor = 5 / 100\<rparr>)"

text \<open>\<open>this.pieceValues[type]\<close>; the key \<open>true\<close> is missing, which gives \<open>undefined\<close> and
  \<open>NaN\<close> in arithmetic.\<close>

definition pieceValues :: "ptype \<Rightarrow> jsnum" where
  "pieceValues t =
    (case t of Pawn \<Rightarrow> Num 100 | Knight \<Rightarrow> Num 320 | Bishop \<Rightarrow> Num 330 | Rook \<Rightarrow> Num 500
     | Queen \<Rightarrow> Num 900 | King \<Rightarrow> Num 20000 | BoolTrue \<Rightarrow> NaN)"

definition pstPawn :: "int list list" where
  "pstPawn =
    [ [0, 0, 0, 0, 0, 0, 0, 0],
     [50, 50, 50, 50, 50, 50, 50, 50],
     [10, 10, 20, 30, 30, 20, 10, 10],
     [5, 5, 10, 25, 25, 10, 5, 5],
     [0, 0, 0, 20, 20, 0, 0, 0],
     [5, -5, -10, 0, 0, -10, -5, 5],
     [5, 10, 10, -20, -20, 10, 10, 5],
     [0, 0, 0, 0, 0, 0, 0, 0]]"

definition pstKnight :: "int list list" where
  "pstKnight =
    [ [-50, -40, -30, -30, -30, -30, -40, -50],
     [-40, -20, 0, 0, 0, 0, -20, -40],
     [-30, 0, 10, 15, 15, 10, 0, -30],
     [-30, 5, 15, 20, 20, 15, 5, -30],
     [-30, 0, 15, 20, 20, 15, 0, -30],
     [-30, 5, 10, 15, 15, 10, 5, -30],
     [-40, -20, 0, 5, 5, 0, -20, -40],
     [-50, -40, -30, -30, -30, -30, -40, -50]]"

definition pstBishop :: "int list list" where
  "pstBishop =
    [ [-20, -10, -10, -10, -10, -10, -10, -20],
     [-10, 0, 0, 0, 0, 0, 0, -10],
     [-10, 0, 5, 10, 10, 5, 0, -10],
     [-10, 5, 5, 10, 10, 5, 5, -10],
     [-10, 0, 10, 10, 10, 10, 0, -10],
     [-10, 10, 10, 10, 10, 10, 10, -10],
     [-10, 5, 0, 0, 0, 0, 5, -10],
     [-20, -10, -10, -10, -10, -10, -10, -20]]"

definition pstRook :: "int list list" where
  "pstRook =
    [ [0, 0, 0, 0, 0, 0, 0, 0],
     [5, 10, 10, 10, 10, 10, 10, 5],
     [-5, 0, 0, 0, 0, 0, 0, -5],
     [-5, 0, 0, 0, 0, 0, 0, -5],
     [-5, 0, 0, 0, 0, 0, 0, -5],
     [-5, 0, 0, 0, 0, 0, 0, -5],
     [-5, 0, 0, 0, 0, 0, 0, -5],
     [0, 0, 0, 5, 5, 0, 0, 0]]"

definition pstQueen :: "int list list" where
  "pstQueen =
    [ [-20, -10, -10, -5, -5, -10, -10, -20],
     [-10, 0, 0, 0, 0, 0, 0, -10],
     [-10, 0, 5, 5, 5, 5, 0, -10],
     [-5, 0, 5, 5, 5, 5, 0, -5],
     [0, 0, 5, 5, 5, 5, 0, -5],
     [-10, 5, 5, 5, 5, 5, 0, -10],
     [-10, 0, 5, 0, 0, 0, 0, -10],
     [-20, -10, -10, -5, -5, -10, -10, -20]]"

definition pstKingMiddlegame :: "int list list" where
  "pstKingMiddlegame =
    [ [-30, -40, -40, -50, -50, -40, -40, -30],
     [-30, -40, -40, -50, -50, -40, -40, -30],
     [-30, -40, -40, -50, -50, -40, -40, -30],
     [-30, -40, -40, -50, -50, -40, -40, -30],
     [-20, -30, -30, -40, -40, -30, -30, -20],
     [-10, -20, -20, -20, -20, -20, -20, -10],
     [20, 20, 0, 0, 0, 0, 20, 20],
     [20, 30, 10, 0, 0, 10, 30, 20]]"

definition pstKingEndgame :: "int list list" where
  "pstKingEndgame =
    [ [-50, -40, -30, -20, -20, -30, -40, -50],
     [-30, -20, -10, 0, 0, -10, -20, -30],
     [-30, -10, 20, 30, 30, 20, -10, -30],
     [-30, -10, 30, 40, 40, 30, -10, -30],
     [-30, -10, 30, 40, 40, 30, -10, -30],
     [-30, -10, 20, 30, 30, 20, -10, -30],
     [-30, -30, 0, 0, 0, 0, -30, -30],
     [-50, -30, -30, -30, -30, -30, -30, -50]]"

definition pieceCount :: "board \<Rightarrow> nat" where
  "pieceCount b = length (filter (\<lambda>(r, c). getPiece b r c \<noteq> None) allSquares)"

text \<open>
  \<open>getPositionValue\<close>: \<open>None\<close> is the \<open>TypeError\<close> of indexing the missing table
  \<open>this.pst[true]\<close>.
\<close>

definition getPositionValue :: "piece \<Rightarrow> int \<Rightarrow> int \<Rightarrow> engine \<Rightarrow> int option" where
  "getPositionValue p r c e =
    (let table = (case ptype p of
                    King \<Rightarrow> Some (if pieceCount (board e) \<le> 10 then pstKingEndgame
                                  else pstKingMiddlegame)
                  | Pawn \<Rightarrow> Some pstPawn | Knight \<Rightarrow> Some pstKnight | Bishop \<Rightarrow> Some pstBishop
                  | Rook \<Rightarrow> Some pstRook | Queen \<Rightarrow> Some pstQueen | BoolTrue \<Rightarrow> None);
         tableRow = (if color p = White then r else 7 - r)
     in case table of None \<Rightarrow> None | Some t \<Rightarrow> Some (t ! nat tableRow ! nat c))"

text \<open>
  The material loop of \<open>evaluate\<close> with its three running variables \<open>score\<close>,
  \<open>whitePieceCount\<close> and \<open>blackPieceCount\<close>; \<open>None\<close> when \<open>getPositionValue\<close> throws.
  The only type without a piece value is the one without a table, so the value is a
  number whenever the position value is.
\<close>

fun materialLoop :: "engine \<Rightarrow> square list \<Rightarrow> int \<times> nat \<times> nat \<Rightarrow> (int \<times> nat \<times> nat) option" where
  "materialLoop e [] acc = Some acc"
| "materialLoop e (s # ss) acc =
    (case getPiece (board e) (fst s) (snd s) of
       None \<Rightarrow> materialLoop e ss acc
     | Some p \<Rightarrow>
        (case getPositionValue p (fst s) (snd s) e of
           None \<Rightarrow> None
         | Some positionValue \<Rightarrow>
            (let pieceValue = (case pieceValues (ptype p) of Num v \<Rightarrow> v | NaN \<Rightarrow> 0);
                 nonKing = (if ptype p \<noteq> King then 1 else 0)
             in if color p = White
                then materialLoop e ss (fst acc + (pieceValue + positionValue),
                                        fst (snd acc) + nonKing, snd (snd acc))
                else materialLoop e ss (fst acc - (pieceValue + positionValue),
                                        fst (snd acc), snd (snd acc) + nonKing))))"

definition evaluateKingSafety :: "engine \<Rightarrow> color \<Rightarrow> int" where
  "evaluateKingSafety e cl =
    (case findKing (board e) cl of
       None \<Rightarrow> 0
     | Some king \<Rightarrow>
        (let kr = fst king; kc = snd king;
             s1 = (if kc \<ge> 2 \<and> kc \<le> 5 then -30 else 0);
             s2 = (if kr = (if cl = White then 7 else 0) \<and> (kc \<le> 2 \<or> kc \<ge> 6) then s1 + 40 else s1);
             pawnShieldRow = (if cl = White then kr - 1 else kr + 1)
         in s2 + sum_list (map (\<lambda>dc.
              let c = kc + dc in
              if c \<ge> 0 \<and> c < 8 \<and> pawnShieldRow \<ge> 0 \<and> pawnShieldRow < 8
                 \<and> isPiece (board e) Pawn cl (pawnShieldRow, c) then 15 else 0) [-1, 0, 1])))"

text \<open>
  \<open>evaluate\<close> assigns \<open>engine.currentPlayer\<close> twice for the mobility term and restores it,
  so the engine is passed in and returned. The first component is \<open>None\<close> when the call
  throws.
\<close>

definition evaluate :: "engine \<Rightarrow> int option \<times> engine" where
  "evaluate e =
    (if gameState e = Checkmate then (Some (if currentPlayer e = White then -100000 else 100000), e)
     else if gameState e = Stalemate \<or> gameState e = Draw then (Some 0, e)
     else
      (case materialLoop e allSquares (0, 0, 0) of
         None \<Rightarrow> (None, e)
       | Some acc \<Rightarrow>
          (let originalPlayer = currentPlayer e;
               w = getAllLegalMoves (e\<lparr>currentPlayer := White\<rparr>);
               whiteMoves = int (length (fst w));
               b = getAllLegalMoves ((snd w)\<lparr>currentPlayer := Black\<rparr>);
               blackMoves = int (length (fst b));
               e1 = (snd b)\<lparr>currentPlayer := originalPlayer\<rparr>;
               score1 = fst acc + (whiteMoves - blackMoves) * 5;
               score2 = (if isInCheck (board e1) Black then score1 + 50 else score1);
               score3 = (if isInCheck (board e1) White then score2 - 50 else score2);
               totalPieces = fst (snd acc) + snd (snd acc);
               score4 = (if totalPieces > 10
                         then score3 + evaluateKingSafety e1 White - evaluateKingSafety e1 Black
                         else score3)
           in (Some score4, e1))))"

subsection \<open>Move ordering\<close>

definition jsSub :: "jsnum \<Rightarrow> jsnum \<Rightarrow> jsnum" where
  "jsSub x y = (case x of NaN \<Rightarrow> NaN | Num a \<Rightarrow> (case y of NaN \<Rightarrow> NaN | Num b \<Rightarrow> Num (a - b)))"

definition jsAdd :: "jsnum \<Rightarrow> jsnum \<Rightarrow> jsnum" where
  "jsAdd x y = (case x of NaN \<Rightarrow> NaN | Num a \<Rightarrow> (case y of NaN \<Rightarrow> NaN | Num b \<Rightarrow> Num (a + b)))"

text \<open>\<open>pieceValues[t] / 10\<close>: every value of the table is a multiple of ten.\<close>

definition jsDiv10 :: "jsnum \<Rightarrow> jsnum" where
  "jsDiv10 x = (case x of NaN \<Rightarrow> NaN | Num a \<Rightarrow> Num (a div 10))"

definition moveScore :: "engine \<Rightarrow> legalMove \<Rightarrow> jsnum" where
  "moveScore e a =
    (let s0 = Num 0;
         s1 = (if capture a then
                 (case getPiece (board e) (fst (to_sq a)) (snd (to_sq a)) of
                    None \<Rightarrow> s0
                  | Some capturedPiece \<Rightarrow>
                      jsAdd s0 (jsSub (pieceValues (ptype capturedPiece))
                                      (jsDiv10 (pieceValues (ptype (moved a))))))
               else s0);
         s2 = (if promotion a then jsAdd s1 (Num 800) else s1)
     in if (ptype (moved a) = Pawn \<or> ptype (moved a) = Knight)
           \<and> snd (to_sq a) \<ge> 2 \<and> snd (to_sq a) \<le> 5 \<and> fst (to_sq a) \<ge> 2 \<and> fst (to_sq a) \<le> 5
        then jsAdd s2 (Num 10) else s2)"

text \<open>
  \<open>Array.prototype.sort\<close> belongs to the language, not to the repository; it is a
  parameter \<open>srt\<close> of the search, applied to the comparator \<open>scoreB - scoreA\<close>.
  \<open>stableSort\<close> below is the instance for comparators without \<open>NaN\<close> (a stable sort).
\<close>

type_synonym sorter = "(legalMove \<Rightarrow> legalMove \<Rightarrow> jsnum) \<Rightarrow> legalMove list \<Rightarrow> legalMove list"

definition orderMoves :: "sorter \<Rightarrow> legalMove list \<Rightarrow> engine \<Rightarrow> legalMove list" where
  "orderMoves srt moves e = srt (\<lambda>a b. jsSub (moveScore e b) (moveScore e a)) moves"

fun insertBy :: "('a \<Rightarrow> 'a \<Rightarrow> jsnum) \<Rightarrow> 'a \<Rightarrow> 'a list \<Rightarrow> 'a list" where
  "insertBy cmp x [] = [x]"
| "insertBy cmp x (y # ys) =
    (if (case cmp x y of Num v \<Rightarrow> v \<le> 0 | NaN \<Rightarrow> True) then x # y # ys
     else y # insertBy cmp x ys)"

definition stableSort :: "('a \<Rightarrow> 'a \<Rightarrow> jsnum) \<Rightarrow> 'a list \<Rightarrow> 'a list" where
  "stableSort cmp xs = foldr (insertBy cmp) xs []"

subsection \<open>Minimax with alpha-beta pruning\<close>

text \<open>\<open>engine.clone()\<close> followed by \<open>clonedEngine.makeMove(..., move.promotion || 'q')\<close>.\<close>

definition child :: "engine \<Rightarrow> legalMove \<Rightarrow> engine" where
  "child e m = snd (makeMove (fst (from_sq m)) (snd (from_sq m)) (fst (to_sq m)) (snd (to_sq m))
                      (if promotion m then BoolTrue else Queen) (clone e))"

type_synonym score = "int ext"

text \<open>The two \<open>for\<close> statements of \<open>minimax\<close>; \<open>rec\<close> is the recursive call one ply down.\<close>

fun maxLoop :: "(engine \<Rightarrow> score \<Rightarrow> score \<Rightarrow> score option) \<Rightarrow> engine \<Rightarrow> legalMove list
                \<Rightarrow> score \<Rightarrow> score \<Rightarrow> score \<Rightarrow> score option" where
  "maxLoop rec e [] maxEval alpha beta = Some maxEval"
| "maxLoop rec e (m # ms) maxEval alpha beta =
    (case rec (child e m) alpha beta of
       None \<Rightarrow> None
     | Some evalScore \<Rightarrow>
        (let maxEval1 = max maxEval evalScore;
             alpha1 = max alpha evalScore
         in if beta \<le> alpha1 then Some maxEval1 else maxLoop rec e ms maxEval1 alpha1 beta))"

fun minLoop :: "(engine \<Rightarrow> score \<Rightarrow> score \<Rightarrow> score option) \<Rightarrow> engine \<Rightarrow> legalMove list
                \<Rightarrow> score \<Rightarrow> score \<Rightarrow> score \<Rightarrow> score option" where
  "minLoop rec e [] minEval alpha beta = Some minEval"
| "minLoop rec e (m # ms) minEval alpha beta =
    (case rec (child e m) alpha beta of
       None \<Rightarrow> None
     | Some evalScore \<Rightarrow>
        (let minEval1 = min minEval evalScore;
             beta1 = min beta evalScore
         in if beta1 \<le> alpha then Some minEval1 else minLoop rec e ms minEval1 alpha beta1))"

definition isTerminal :: "engine \<Rightarrow> bool" where
  "isTerminal e \<longleftrightarrow> gameState e = Checkmate \<or> gameState e = Stalemate \<or> gameState e = Draw"

definition mateScore :: "ai \<Rightarrow> nat \<Rightarrow> bool \<Rightarrow> int" where
  "mateScore a d isMaximizing =
    (if isMaximizing then -100000 + (int (depth a) - int d) else 100000 - (int (depth a) - int d))"

primrec minimax :: "ai \<Rightarrow> sorter \<Rightarrow> nat \<Rightarrow> engine \<Rightarrow> score \<Rightarrow> score \<Rightarrow> bool \<Rightarrow> score option" where
  "minimax a srt 0 e alpha beta isMaximizing = map_option Fin (fst (evaluate e))"
| "minimax a srt (Suc d) e alpha beta isMaximizing =
    (if isTerminal e then map_option Fin (fst (evaluate e))
     else
      (let ms = getAllLegalMoves e; moves = fst ms; e1 = snd ms in
       if moves = [] then
         (if isInCheck (board e1) (currentPlayer e1)
          then Some (Fin (mateScore a (Suc d) isMaximizing))
          else Some (Fin 0))
       else
        (let orderedMoves = orderMoves srt moves e1 in
         if isMaximizing
         then maxLoop (\<lambda>ch al be. minimax a srt d ch al be False) e1 orderedMoves NegInf alpha beta
         else minLoop (\<lambda>ch al be. minimax a srt d ch al be True) e1 orderedMoves PosInf alpha beta)))"

subsection \<open>Brute-force minimax\<close>

text \<open>
  The unpruned search the specification compares with: the same recursion with the
  \<open>alpha\<close>/\<open>beta\<close> bookkeeping and the two \<open>break\<close>s removed.
\<close>

fun bruteMaxLoop :: "(engine \<Rightarrow> score option) \<Rightarrow> engine \<Rightarrow> legalMove list \<Rightarrow> score
                     \<Rightarrow> score option" where
  "bruteMaxLoop rec e [] maxEval = Some maxEval"
| "bruteMaxLoop rec e (m # ms) maxEval =
    (case rec (child e m) of
       None \<Rightarrow> None
     | Some evalScore \<Rightarrow> bruteMaxLoop rec e ms (max maxEval evalScore))"

fun bruteMinLoop :: "(engine \<Rightarrow> score option) \<Rightarrow> engine \<Rightarrow> legalMove list \<Rightarrow> score
                     \<Rightarrow> score option" where
  "bruteMinLoop rec e [] minEval = Some minEval"
| "bruteMinLoop rec e (m # ms) minEval =
    (case rec (child e m) of
       None \<Rightarrow> None
     | Some evalScore \<Rightarrow> bruteMinLoop rec e ms (min minEval evalScore))"

primrec bruteForce :: "ai \<Rightarrow> sorter \<Rightarrow> nat \<Rightarrow> engine \<Rightarrow> bool \<Rightarrow> score option" where
  "bruteForce a srt 0 e isMaximizing = map_option Fin (fst (evaluate e))"
| "bruteForce a srt (Suc d) e isMaximizing =
    (if isTerminal e then map_option Fin (fst (evaluate e))
     else
      (let ms = getAllLegalMoves e; moves = fst ms; e1 = snd ms in
       if moves = [] then
         (if isInCheck (board e1) (currentPlayer e1)
          then Some (Fin (mateScore a (Suc d) isMaximizing))
          else Some (Fin 0))
       else
        (let orderedMoves = orderMoves srt moves e1 in
         if isMaximizing
         then bruteMaxLoop (\<lambda>ch. bruteForce a srt d ch False) e1 orderedMoves NegInf
         else bruteMinLoop (\<lambda>ch. bruteForce a srt d ch True) e1 orderedMoves PosInf)))"

subsection \<open>Root selection\<close>

text \<open>
  \<open>Math.random()\<close> is the sequence \<open>rnd 0, rnd 1, ...\<close> of numbers in \<open>[0, 1)\<close>, read
  at a running index.
\<close>

definition addJitter :: "score \<Rightarrow> rat \<Rightarrow> rat ext" where
  "addJitter v j = (case v of NegInf \<Rightarrow> NegInf | PosInf \<Rightarrow> PosInf | Fin i \<Rightarrow> Fin (of_int i + j))"




section \<open>Notions used to state the properties\<close>

text \<open>The board invariant: eight rows of eight squares.\<close>

definition wf_board :: "board \<Rightarrow> bool" where
  "wf_board b \<longleftrightarrow> length b = 8 \<and> list_all (\<lambda>rw. length rw = 8) b"

text \<open>
  Malformed input in the words of the specification: fewer than four fields, a board
  field whose row count is not eight, a row whose square count is not eight, or an
  unrecognised board character. Fields are what \<open>trim\<close> and \<open>split(/\s+/)\<close> separate,
  rows what \<open>split('/')\<close> separates; a digit \<open>1\<close> to \<open>8\<close> counts for that many squares
  and any other character for one.
\<close>

definition recognised :: "char \<Rightarrow> bool" where
  "recognised ch \<longleftrightarrow> isDigit18 ch \<or> pieceMap ch \<noteq> None"

definition squareCount :: "string \<Rightarrow> int" where
  "squareCount s = sum_list (map (\<lambda>ch. if isDigit18 ch then of_char ch - 48 else 1) s)"

definition badRow :: "string \<Rightarrow> bool" where
  "badRow rw \<longleftrightarrow> squareCount rw \<noteq> 8 \<or> list_ex (\<lambda>ch. \<not> recognised ch) rw"

definition malformedFEN :: "string \<Rightarrow> bool" where
  "malformedFEN fen \<longleftrightarrow>
    (let parts = splitWs fen in
     length parts < 4 \<or>
     (let rows = splitOn CHR ''/'' [] (parts ! 0) in
      length rows \<noteq> 8 \<or> list_ex badRow rows))"

text \<open>
  The ingredients of the terminal-state classification, read off a position: whether
  the side to move is in check, whether it has no legal move, and how often the current
  repetition key occurs in the position history.
\<close>

definition sideInCheck :: "engine \<Rightarrow> bool" where
  "sideInCheck e \<longleftrightarrow> isInCheck (board e) (currentPlayer e)"

definition noLegalMove :: "engine \<Rightarrow> bool" where
  "noLegalMove e \<longleftrightarrow> fst (getAllLegalMoves e) = []"

definition repetitions :: "engine \<Rightarrow> nat" where
  "repetitions e = count_list (positionHistory e) (getPositionKey e)"

text \<open>The six-step priority order of section 4.1 of the specification.\<close>

definition specClassify :: "engine \<Rightarrow> gstate" where
  "specClassify e =
    (if sideInCheck e \<and> noLegalMove e then Checkmate
     else if \<not> sideInCheck e \<and> noLegalMove e then Stalemate
     else if jsGe (halfMoveClock e) 100 then Draw
     else if repetitions e \<ge> 3 then Draw
     else if isInsufficientMaterial (board e) then Draw
     else if sideInCheck e then Check
     else Playing)"

text \<open>The order with the check test before the three draw tests.\<close>

definition checkFirstClassify :: "engine \<Rightarrow> gstate" where
  "checkFirstClassify e =
    (if sideInCheck e then (if noLegalMove e then Checkmate else Check)
     else if noLegalMove e then Stalemate
     else if jsGe (halfMoveClock e) 100 then Draw
     else if repetitions e \<ge> 3 then Draw
     else if isInsufficientMaterial (board e) then Draw
     else Playing)"



text \<open>
  The relation between the value \<open>v\<close> of an unpruned search and the value \<open>w\<close> of a
  pruned search with window \<open>(al, be)\<close>: exact inside the window, a bound outside it.
\<close>

definition fishburn :: "score \<Rightarrow> score \<Rightarrow> score \<Rightarrow> score \<Rightarrow> bool" where
  "fishburn al be v w \<longleftrightarrow>
     (w \<le> al \<longrightarrow> v \<le> w) \<and> (al < w \<and> w < be \<longrightarrow> w = v) \<and> (be \<le> w \<longrightarrow> w \<le> v)"

text \<open>A board without pawns and without a piece of the type \<open>true\<close>: no move on it is
  a promotion.\<close>

definition pawnless :: "board \<Rightarrow> bool" where
  "pawnless b \<longleftrightarrow> list_all (\<lambda>s. case getPiece b (fst s) (snd s) of
      None \<Rightarrow> True | Some p \<Rightarrow> ptype p \<noteq> Pawn \<and> ptype p \<noteq> BoolTrue) allSquares"

section \<open>Example positions\<close>

text \<open>Positions set up through \<open>new ChessEngine()\<close> and \<open>loadFromFEN\<close>, and the moves played
  on them in the examples below.\<close>

definition rookEnding :: engine where
  "rookEnding = snd (loadFromFEN ''4k2r/8/8/8/8/8/8/4K2R w Kk - 0 1'' reset)"

definition foolsMateFEN :: string where
  "foolsMateFEN = ''rnb1kbnr/pppp1ppp/8/4p3/6Pq/5P2/PPPPP2P/RNBQKBNR w KQkq - 1 3''"

definition foolsMate :: engine where
  "foolsMate = snd (loadFromFEN foolsMateFEN reset)"

text \<open>The position one ply earlier, and the mate delivered by the move d8-h4.\<close>

definition beforeMate :: engine where
  "beforeMate =
     snd (loadFromFEN ''rnbqkbnr/pppp1ppp/8/4p3/6P1/5P2/PPPPP2P/RNBQKBNR b KQkq g3 0 2'' reset)"

definition mated :: engine where
  "mated = snd (makeMove 0 3 4 7 Queen beforeMate)"

text \<open>King and rook against king with the half-move clock at 99, and the check a1-a8.\<close>

definition fiftyMove :: engine where
  "fiftyMove = snd (loadFromFEN ''4k3/8/8/8/8/8/8/R3K3 w - - 99 60'' reset)"

definition afterRa8 :: engine where
  "afterRa8 = snd (makeMove 7 0 0 0 Queen fiftyMove)"

text \<open>Two white rooks with both white castling rights, and the moves a1-b1, e8-d8, e1-e2.\<close>

definition twoRooks :: engine where
  "twoRooks = snd (loadFromFEN ''4k3/8/8/8/8/8/8/R3K2R w KQ - 0 1'' reset)"

definition afterRb1 :: engine where
  "afterRb1 = snd (makeMove 7 0 7 1 Queen twoRooks)"

definition afterKd8 :: engine where
  "afterKd8 = snd (makeMove 0 4 0 3 Queen afterRb1)"

definition afterKe2 :: engine where
  "afterKe2 = snd (makeMove 7 4 6 4 Queen afterKd8)"

text \<open>A pawn ending with black to move, clocks 5 and 10, and the pawn move e7-e6.\<close>

definition pawnEnding :: engine where
  "pawnEnding = snd (loadFromFEN ''4k3/4p3/8/8/8/8/8/4K3 b - - 5 10'' reset)"

definition afterE6 :: engine where
  "afterE6 = snd (makeMove 1 4 2 4 Queen pawnEnding)"







text \<open>
  The fields of a string when only the space character separates them, and a position
  string whose four fields are separated by tabs.
\<close>

definition spaceFields :: "string \<Rightarrow> string list" where
  "spaceFields s = tokens (\<lambda>ch. ch = CHR '' '') [] s"

definition tabSeparated :: string where
  "tabSeparated = ''8/8/8/8/8/8/8/8'' @ [CHR 0x09] @ ''w'' @ [CHR 0x09] @ ''-'' @ [CHR 0x09] @ ''-''"

text \<open>Three malformed strings: seven rows, a row of nine squares, three fields.\<close>

definition sevenRows :: string where
  "sevenRows = ''rnbqkbnr/pppppppp/8/8/8/8/PPPPPPPP w KQkq - 0 1''"

definition nineSquares :: string where
  "nineSquares = ''rnbqkbnr/pppppppp/8/8/8/8/PPPPPPPP/RNBQKBNRR w KQkq - 0 1''"

definition threeFields :: string where
  "threeFields = ''rnbqkbnr/pppppppp/8/8/8/8/PPPPPPPP/RNBQKBNR w KQkq''"

section \<open>Board updates and the legality probe\<close>

lemma wf_board_nth: "wf_board b \<Longrightarrow> i < 8 \<Longrightarrow> length (b ! i) = 8"
  by (simp add: wf_board_def list_all_length)

lemma wf_board_alt: "wf_board b \<longleftrightarrow> map length b = replicate 8 8"
proof
  assume "wf_board b"
  then show "map length b = replicate 8 8"
    by (intro nth_equalityI) (auto simp: wf_board_def list_all_length)
next
  assume h: "map length b = replicate 8 8"
  then have l: "length b = 8" by (metis length_map length_replicate)
  have "\<And>i. i < 8 \<Longrightarrow> length (b ! i) = 8"
  proof -
    fix i :: nat assume i: "i < 8"
    then have "map length b ! i = length (b ! i)" using l by simp
    then show "length (b ! i) = 8" using h i by simp
  qed
  then show "wf_board b" using l by (simp add: wf_board_def list_all_length)
qed

lemma wf_setPiece [simp]: "wf_board (setPiece r c p b) = wf_board b"
proof (cases "inBoard r c \<and> nat r < length b")
  case False
  then show ?thesis by (auto simp: setPiece_def list_update_beyond)
next
  case True
  then have "map length (b[nat r := (b ! nat r)[nat c := p]]) = map length b"
    by (simp add: map_update list_update_same_conv)
  then show ?thesis using True by (simp add: wf_board_alt setPiece_def)
qed

lemma getPiece_setPiece:
  assumes "wf_board b" "inBoard r c"
  shows "getPiece (setPiece r c p b) r' c' = (if r' = r \<and> c' = c then p else getPiece b r' c')"
proof (cases "inBoard r' c'")
  case False
  then show ?thesis using assms by (auto simp: getPiece_def inBoard_def)
next
  case True
  have l: "length b = 8" using assms by (simp add: wf_board_def)
  have "nat r < 8" using assms(2) unfolding inBoard_def by linarith
  then have lr: "length (b ! nat r) = 8" using assms(1) by (rule wf_board_nth[rotated])
  have eq1: "nat r' = nat r \<longleftrightarrow> r' = r" using True assms by (auto simp: inBoard_def)
  have eq2: "nat c' = nat c \<longleftrightarrow> c' = c" using True assms by (auto simp: inBoard_def)
  have "nat r' < 8" "nat r < 8" "nat c < 8" "nat c' < 8"
    using True assms(2) unfolding inBoard_def by linarith+
  then show ?thesis using True assms l lr eq1 eq2
    by (auto simp: getPiece_def setPiece_def inBoard_def nth_list_update)
qed

lemma getPiece_setPiece_out: "\<not> inBoard r c \<Longrightarrow> setPiece r c p b = b"
  by (simp add: setPiece_def)

lemma getPiece_out: "\<not> inBoard r c \<Longrightarrow> getPiece b r c = None"
  by (auto simp: getPiece_def inBoard_def)

lemma getPiece_set_any:
  assumes "wf_board b"
  shows "getPiece (setPiece r c p b) r' c' =
        (if inBoard r c \<and> r' = r \<and> c' = c then p else getPiece b r' c')"
  using assms getPiece_setPiece[OF assms] by (cases "inBoard r c") (auto simp: setPiece_def)

lemma board_ext:
  assumes "wf_board b" "wf_board b'"
    and "\<And>r c. inBoard r c \<Longrightarrow> getPiece b r c = getPiece b' r c"
  shows "b = b'"
proof (rule nth_equalityI)
  show "length b = length b'" using assms by (simp add: wf_board_def)
next
  fix i assume i: "i < length b"
  then have i8: "i < 8" using assms by (simp add: wf_board_def)
  show "b ! i = b' ! i"
  proof (rule nth_equalityI)
    show "length (b ! i) = length (b' ! i)" using assms i8 by (simp add: wf_board_nth)
  next
    fix j assume "j < length (b ! i)"
    then have j8: "j < 8" using assms i8 by (simp add: wf_board_nth)
    have "inBoard (int i) (int j)" using i8 j8 by (simp add: inBoard_def)
    from assms(3)[OF this] show "b ! i ! j = b' ! i ! j"
      using i8 j8 by (simp add: getPiece_def)
  qed
qed

lemma isMoveLegal_frame:
  assumes wf: "wf_board (board e)" and pc: "getPiece (board e) fr fc = Some p"
  shows "snd (isMoveLegal fr fc tr tc p e) = e"
proof -
  have inb: "inBoard fr fc" using pc by (auto simp: getPiece_def inBoard_def split: if_splits)
  define cap where "cap = (if color p = White then tr + 1 else tr - 1)"
  define isEp where "isEp \<longleftrightarrow> ptype p = Pawn \<and> enPassantTarget e = Some (tr, tc)"
  define b2 where "b2 = setPiece fr fc None (setPiece tr tc (Some p) (board e))"
  define capE where "capE = (if isEp then getPiece b2 cap tc else None)"
  define b3 where "b3 = (if isEp then setPiece cap tc None b2 else b2)"
  define b5 where "b5 = setPiece tr tc (getPiece (board e) tr tc) (setPiece fr fc (Some p) b3)"
  define b7 where "b7 = (if capE \<noteq> None then setPiece cap tc capE b5 else b5)"
  have res: "snd (isMoveLegal fr fc tr tc p e) = e\<lparr>board := b7\<rparr>"
    by (simp add: isMoveLegal_def Let_def setPieceE_def b7_def b5_def b3_def capE_def b2_def
          isEp_def cap_def)
  have capne: "cap \<noteq> tr" by (simp add: cap_def)
  have w2: "wf_board b2" using wf by (simp add: b2_def)
  have w3: "wf_board b3" using w2 by (simp add: b3_def)
  have w5: "wf_board b5" using w3 by (simp add: b5_def)
  have w7: "wf_board b7" using w5 by (simp add: b7_def)
  have g2: "getPiece b2 r c = (if r = fr \<and> c = fc then None
              else if inBoard tr tc \<and> r = tr \<and> c = tc then Some p else getPiece (board e) r c)"
    for r c using wf inb by (simp add: b2_def getPiece_set_any)
  have g3: "getPiece b3 r c = (if isEp \<and> inBoard cap tc \<and> r = cap \<and> c = tc then None
              else getPiece b2 r c)" for r c
    using w2 by (simp add: b3_def getPiece_set_any)
  have g5: "getPiece b5 r c = (if inBoard tr tc \<and> r = tr \<and> c = tc then getPiece (board e) tr tc
              else if r = fr \<and> c = fc then Some p else getPiece b3 r c)" for r c
    using w3 inb by (simp add: b5_def getPiece_set_any)
  have g7: "getPiece b7 r c = (if capE \<noteq> None \<and> inBoard cap tc \<and> r = cap \<and> c = tc then capE
              else getPiece b5 r c)" for r c
    using w5 by (auto simp: b7_def getPiece_set_any)
  have "b7 = board e"
  proof (rule board_ext[OF w7 wf])
    fix r c assume rc: "inBoard r c"
    show "getPiece b7 r c = getPiece (board e) r c"
    proof (cases "capE = None")
      case True
      then have ce: "isEp \<Longrightarrow> getPiece b2 cap tc = None" by (simp add: capE_def)
      show ?thesis using True pc capne ce
        by (auto simp: g7 g5 g3 g2 split: if_splits)
    next
      case False
      then have ep: "isEp" and ce: "capE = getPiece b2 cap tc"
        by (auto simp: capE_def split: if_splits)
      have nz: "getPiece b2 cap tc \<noteq> None" using False ce by simp
      then have nfr: "\<not> (cap = fr \<and> tc = fc)" by (auto simp: g2)
      have c0: "getPiece b2 cap tc = getPiece (board e) cap tc"
        using nfr capne by (auto simp: g2)
      show ?thesis using pc capne nfr c0 ce
        by (auto simp: g7 g5 g3 g2)
    qed
  qed
  then show ?thesis using res by simp
qed

lemma filterLegal_frame:
  assumes "wf_board (board e)" "getPiece (board e) r c = Some p"
  shows "filterLegal r c p ms e = (filter (\<lambda>m. fst (isMoveLegal r c (row m) (col m) p e)) ms, e)"
  using assms
  by (induction ms) (simp_all add: Let_def isMoveLegal_frame)

lemma getValidMoves_frame: "wf_board (board e) \<Longrightarrow> snd (getValidMoves r c e) = e"
  by (simp add: getValidMoves_def filterLegal_frame split: option.splits)

lemma allLegalLoop_frame: "wf_board (board e) \<Longrightarrow> snd (allLegalLoop ss e) = e"
  by (induction ss) (simp_all add: Let_def getValidMoves_frame split: option.splits)

lemma getAllLegalMoves_frame: "wf_board (board e) \<Longrightarrow> snd (getAllLegalMoves e) = e"
  by (simp add: getAllLegalMoves_def allLegalLoop_frame)

lemma hasLegalLoop_frame: "wf_board (board e) \<Longrightarrow> snd (hasLegalLoop cl ss e) = e"
  by (induction ss) (simp_all add: Let_def getValidMoves_frame split: option.splits)

lemma hasLegalMoves_frame: "wf_board (board e) \<Longrightarrow> snd (hasLegalMoves cl e) = e"
  by (simp add: hasLegalMoves_def hasLegalLoop_frame)

text \<open>
  Claim C10: \<open>evaluate\<close> has no net effect on the engine. The engine returned by the
  call, after the two assignments to \<open>currentPlayer\<close> for the mobility term and the
  restoring one, is the engine passed in, on every position with an 8x8 board.
\<close>

theorem evaluate_frame:
  assumes "wf_board (board e)"
  shows "snd (evaluate e) = e"
proof (cases "gameState e = Checkmate \<or> gameState e = Stalemate \<or> gameState e = Draw")
  case True
  then show ?thesis by (auto simp: evaluate_def)
next
  case False
  show ?thesis
  proof (cases "materialLoop e allSquares (0, 0, 0)")
    case None
    then show ?thesis using False by (simp add: evaluate_def)
  next
    case (Some acc)
    let ?w = "e\<lparr>currentPlayer := White\<rparr>"
    let ?b = "e\<lparr>currentPlayer := Black\<rparr>"
    have w: "snd (getAllLegalMoves ?w) = ?w"
      using assms by (simp add: getAllLegalMoves_frame)
    have b: "snd (getAllLegalMoves ?b) = ?b"
      using assms by (simp add: getAllLegalMoves_frame)
    have "snd (evaluate e) = ?b\<lparr>currentPlayer := currentPlayer e\<rparr>"
      using False Some by (simp add: evaluate_def Let_def w b)
    then show ?thesis by simp
  qed
qed

theorem evaluate_frame_witness:
  "wf_board (board rookEnding) \<and> gameState rookEnding = Playing
   \<and> snd (evaluate rookEnding) = rookEnding"
proof -
  have h: "wf_board (board rookEnding)" by code_simp
  have g: "gameState rookEnding = Playing" by code_simp
  show ?thesis using h g evaluate_frame[OF h] by simp
qed

text \<open>
  Claim C6: a call of \<open>makeMove\<close> whose target is not among the legal moves of the piece
  on the source square (an empty source square and a piece of the side not to move have
  none) returns \<open>null\<close> and leaves the whole engine as it was.
\<close>

theorem makeMove_illegal:
  assumes "wf_board (board e)"
    and "\<not> (\<exists>m \<in> set (fst (getValidMoves fromRow fromCol e)). row m = toRow \<and> col m = toCol)"
  shows "makeMove fromRow fromCol toRow toCol promotionPiece e = (None, e)"
proof (cases "getPiece (board e) fromRow fromCol")
  case None
  then show ?thesis by (simp add: makeMove_def)
next
  case (Some p)
  have "find (\<lambda>m. row m = toRow \<and> col m = toCol) (fst (getValidMoves fromRow fromCol e)) = None"
    using assms(2) by (auto simp: find_None_iff)
  then show ?thesis using Some assms(1)
    by (simp add: makeMove_def Let_def getValidMoves_frame)
qed

text \<open>The knight on g1 may go to f3 and h3, not to g3.\<close>

theorem makeMove_illegal_witness:
  "wf_board (board reset)
   \<and> fst (getValidMoves 7 6 reset) \<noteq> []
   \<and> \<not> (\<exists>m \<in> set (fst (getValidMoves 7 6 reset)). row m = 5 \<and> col m = 6)
   \<and> makeMove 7 6 5 6 Queen reset = (None, reset)"
proof -
  have h1: "wf_board (board reset)" by code_simp
  have h2: "\<not> (\<exists>m \<in> set (fst (getValidMoves 7 6 reset)). row m = 5 \<and> col m = 6)" by code_simp
  have h3: "fst (getValidMoves 7 6 reset) \<noteq> []" by code_simp
  show ?thesis using h1 h2 h3 makeMove_illegal[OF h1 h2, where promotionPiece = Queen] by blast
qed

section \<open>Terminal-state classification after a move\<close>

lemma getValidMoves_pure:
  assumes "wf_board (board e)"
  shows "fst (getValidMoves r c e) =
    (case getPiece (board e) r c of
       None \<Rightarrow> []
     | Some p \<Rightarrow> if color p \<noteq> currentPlayer e then []
                 else filter (\<lambda>m. fst (isMoveLegal r c (row m) (col m) p e))
                        (getPseudoLegalMoves e r c p))"
  using assms by (simp add: getValidMoves_def filterLegal_frame split: option.splits)

lemma pseudo_cong:
  assumes "board e' = board e" "castlingRights e' = castlingRights e"
    "enPassantTarget e' = enPassantTarget e"
  shows "getPseudoLegalMoves e' r c p = getPseudoLegalMoves e r c p"
proof -
  have 1: "getPawnMoves e' r c cl = getPawnMoves e r c cl" for cl
    unfolding getPawnMoves_def pawnCaptures_def assms by (rule refl)
  have 2: "getKnightMoves e' r c cl = getKnightMoves e r c cl" for cl
    unfolding getKnightMoves_def assms by (rule refl)
  have 3: "getBishopMoves e' r c cl = getBishopMoves e r c cl" for cl
    unfolding getBishopMoves_def assms by (rule refl)
  have 4: "getRookMoves e' r c cl = getRookMoves e r c cl" for cl
    unfolding getRookMoves_def assms by (rule refl)
  have 5: "getKingMoves e' r c cl = getKingMoves e r c cl" for cl
    unfolding getKingMoves_def castlingMoves_def assms by (rule refl)
  show ?thesis
    by (cases "ptype p") (simp_all add: getPseudoLegalMoves_def getQueenMoves_def 1 2 3 4 5)
qed

lemma isMoveLegal_cong:
  assumes "board e' = board e" "enPassantTarget e' = enPassantTarget e"
  shows "fst (isMoveLegal fr fc tr tc p e') = fst (isMoveLegal fr fc tr tc p e)"
  unfolding isMoveLegal_def Let_def setPieceE_def by (simp add: assms)

lemma getValidMoves_cong:
  assumes "wf_board (board e)" "board e' = board e" "currentPlayer e' = currentPlayer e"
    "castlingRights e' = castlingRights e" "enPassantTarget e' = enPassantTarget e"
  shows "fst (getValidMoves r c e') = fst (getValidMoves r c e)"
proof -
  have w: "wf_board (board e')" using assms by simp
  show ?thesis
    unfolding getValidMoves_pure[OF w] getValidMoves_pure[OF assms(1)]
    using assms pseudo_cong[OF assms(2,4,5)] isMoveLegal_cong[OF assms(2,5)]
    by (simp split: option.splits)
qed

lemma allLegalLoop_pure:
  assumes "wf_board (board e)"
  shows "fst (allLegalLoop ss e) = concat (map (\<lambda>s.
      case getPiece (board e) (fst s) (snd s) of
        None \<Rightarrow> []
      | Some p \<Rightarrow> if color p = currentPlayer e
                  then map (toLegalMove s p) (fst (getValidMoves (fst s) (snd s) e)) else []) ss)"
  using assms
  by (induction ss) (simp_all add: Let_def getValidMoves_frame split: option.splits)

lemma hasLegalLoop_pure:
  assumes "wf_board (board e)"
  shows "fst (hasLegalLoop cl ss e) \<longleftrightarrow> (\<exists>s \<in> set ss.
      case getPiece (board e) (fst s) (snd s) of
        None \<Rightarrow> False
      | Some p \<Rightarrow> color p = cl \<and> fst (getValidMoves (fst s) (snd s) (e\<lparr>currentPlayer := cl\<rparr>)) \<noteq> [])"
  using assms
  by (induction ss) (auto simp: Let_def getValidMoves_frame split: option.splits)

lemma hasLegalMoves_iff:
  assumes "wf_board (board e)"
  shows "fst (hasLegalMoves (currentPlayer e) e) \<longleftrightarrow> \<not> noLegalMove e"
  using assms
  by (auto simp: hasLegalMoves_def noLegalMove_def getAllLegalMoves_def hasLegalLoop_pure
        allLegalLoop_pure split: option.splits)

lemma noLegalMove_cong:
  assumes "wf_board (board e)" "board e' = board e" "currentPlayer e' = currentPlayer e"
    "castlingRights e' = castlingRights e" "enPassantTarget e' = enPassantTarget e"
  shows "noLegalMove e' = noLegalMove e"
proof -
  have w: "wf_board (board e')" using assms by simp
  show ?thesis
    unfolding noLegalMove_def getAllLegalMoves_def allLegalLoop_pure[OF w]
      allLegalLoop_pure[OF assms(1)] assms(2,3) getValidMoves_cong[OF assms]
    by (rule refl)
qed

lemma repetitionLoop_count:
  "reps < 3 \<Longrightarrow> repetitionLoop cur reps hist \<longleftrightarrow> 3 \<le> reps + count_list hist cur"
  by (induction hist arbitrary: reps) (auto simp: Let_def)

lemma isDraw_iff:
  "isDraw e \<longleftrightarrow> jsGe (halfMoveClock e) 100 \<or> 3 \<le> repetitions e \<or> isInsufficientMaterial (board e)"
  by (simp add: isDraw_def repetitions_def repetitionLoop_count)

lemma applyMove_wf:
  "wf_board (board e) \<Longrightarrow> wf_board (board (snd (applyMove fr fc tr tc promo p m e)))"
  by (simp add: applyMove_def Let_def setPieceE_def pushCaptured_def
        split: option.splits side.splits)

lemma checkGameState_result:
  assumes "wf_board (board e)"
  shows "snd (checkGameState e) = e\<lparr>gameState := checkFirstClassify e\<rparr>"
  using assms hasLegalMoves_iff[OF assms]
  by (simp add: checkGameState_def Let_def isCheckmate_def isStalemate_def hasLegalMoves_frame
        checkFirstClassify_def sideInCheck_def isDraw_iff)

lemma checkFirstClassify_cong:
  assumes "wf_board (board e)"
  shows "checkFirstClassify (e\<lparr>gameState := g, moveHistory := h\<rparr>) = checkFirstClassify e"
proof -
  have "noLegalMove (e\<lparr>gameState := g, moveHistory := h\<rparr>) = noLegalMove e"
    by (rule noLegalMove_cong[OF assms]) simp_all
  then show ?thesis
    by (simp add: checkFirstClassify_def sideInCheck_def repetitions_def getPositionKey_def)
qed

text \<open>A successful \<open>makeMove\<close> returns the position after the move with the classification
  stored and the move record appended.\<close>

lemma makeMove_success_shape:
  assumes "wf_board (board e)"
    and "makeMove fromRow fromCol toRow toCol promotionPiece e = (Some moveRecord, e')"
  shows "\<exists>e1 h. wf_board (board e1)
                \<and> e' = e1\<lparr>gameState := checkFirstClassify e1, moveHistory := h\<rparr>"
proof -
  from assms(2) obtain p where p: "getPiece (board e) fromRow fromCol = Some p"
    by (auto simp: makeMove_def split: option.splits)
  from assms(2) p obtain m where
    m: "find (\<lambda>m. row m = toRow \<and> col m = toCol) (fst (getValidMoves fromRow fromCol e)) = Some m"
    by (auto simp: makeMove_def Let_def split: option.splits)
  define e1 where "e1 = snd (applyMove fromRow fromCol toRow toCol promotionPiece p m e)"
  have w1: "wf_board (board e1)" unfolding e1_def by (rule applyMove_wf[OF assms(1)])
  have "\<exists>h. e' = e1\<lparr>gameState := checkFirstClassify e1, moveHistory := h\<rparr>"
    using assms p m
    by (auto simp: makeMove_def Let_def getValidMoves_frame e1_def[symmetric]
          checkGameState_result[OF w1])
  then show ?thesis using w1 by blast
qed

text \<open>
  Claim C4, as amended: after every successful \<open>makeMove\<close> the \<open>gameState\<close> is the
  classification of the new position with the check test first: checkmate when the
  side to move is in check without a legal move, check when it is in check with a legal
  move, else stalemate without a legal move, else draw when the half-move clock is at
  least 100, the repetition key occurs three times in the position history or the
  material is insufficient, else playing.
\<close>

theorem makeMove_classification:
  assumes "wf_board (board e)"
    and "makeMove fromRow fromCol toRow toCol promotionPiece e = (Some moveRecord, e')"
  shows "gameState e' = checkFirstClassify e'"
proof -
  from makeMove_success_shape[OF assms] obtain e1 h where
    w1: "wf_board (board e1)"
    and e': "e' = e1\<lparr>gameState := checkFirstClassify e1, moveHistory := h\<rparr>" by blast
  have "checkFirstClassify e' = checkFirstClassify e1"
    unfolding e' by (rule checkFirstClassify_cong[OF w1])
  moreover have "gameState e' = checkFirstClassify e1" unfolding e' by simp
  ultimately show ?thesis by simp
qed

theorem makeMove_classification_witness:
  "wf_board (board pawnEnding)
   \<and> fst (makeMove 1 4 2 4 Queen pawnEnding) \<noteq> None
   \<and> gameState (snd (makeMove 1 4 2 4 Queen pawnEnding))
       = checkFirstClassify (snd (makeMove 1 4 2 4 Queen pawnEnding))"
proof -
  have h1: "wf_board (board pawnEnding)" by code_simp
  have h2: "fst (makeMove 1 4 2 4 Queen pawnEnding) \<noteq> None" by code_simp
  then obtain r where "fst (makeMove 1 4 2 4 Queen pawnEnding) = Some r" by auto
  then have "makeMove 1 4 2 4 Queen pawnEnding = (Some r, snd (makeMove 1 4 2 4 Queen pawnEnding))"
    by (simp add: prod_eq_iff)
  from makeMove_classification[OF h1 this] h1 h2 show ?thesis by simp
qed

text \<open>
  The claim as stated fails: after the rook check a1-a8 with the clock reaching 100 the
  side to move is in check and has legal moves; the six-step order gives a draw, the
  engine reports check.
\<close>

theorem check_before_draw_counterexample:
  "halfMoveClock afterRa8 = Num 100 \<and> sideInCheck afterRa8 \<and> \<not> noLegalMove afterRa8
   \<and> specClassify afterRa8 = Draw \<and> gameState afterRa8 = Check
   \<and> gameState afterRa8 \<noteq> specClassify afterRa8"
  by code_simp

section \<open>The board invariant\<close>

text \<open>A new engine has an 8x8 board, and \<open>loadFromFEN\<close>, \<open>makeMove\<close> and \<open>undoMove\<close> keep
  it so.\<close>

lemma wf_emptyBoard: "wf_board emptyBoard"
  by (simp add: wf_board_def emptyBoard_def list_all_iff)

lemma wf_reset: "wf_board (board reset)"
  by (simp add: wf_board_def reset_def createInitialBoard_def)

lemma parseRow_wf: "wf_board b \<Longrightarrow> wf_board (snd (snd (parseRow r s c b)))"
  by (induction s arbitrary: c b) (auto split: option.splits)

lemma parseRows_wf: "wf_board b \<Longrightarrow> wf_board (snd (parseRows r rows b))"
  by (induction rows arbitrary: r b) (auto simp: Let_def parseRow_wf)

lemma loadFromFEN_wf:
  "wf_board (board e) \<Longrightarrow> wf_board (board (snd (loadFromFEN fen e)))"
  by (simp add: loadFromFEN_def Let_def parseRows_wf wf_emptyBoard)

lemma makeMove_wf:
  assumes "wf_board (board e)"
  shows "wf_board (board (snd (makeMove fr fc tr tc promo e)))"
proof (cases "getPiece (board e) fr fc")
  case None
  then show ?thesis using assms by (simp add: makeMove_def)
next
  case (Some p)
  show ?thesis
  proof (cases "find (\<lambda>m. row m = tr \<and> col m = tc) (fst (getValidMoves fr fc e))")
    case None
    then show ?thesis using Some assms by (simp add: makeMove_def Let_def getValidMoves_frame)
  next
    case (Some m)
    define e1 where "e1 = snd (applyMove fr fc tr tc promo p m e)"
    have w1: "wf_board (board e1)" unfolding e1_def by (rule applyMove_wf[OF assms])
    then show ?thesis
      using \<open>getPiece (board e) fr fc = Some p\<close> Some assms
      by (simp add: makeMove_def Let_def getValidMoves_frame e1_def[symmetric]
            checkGameState_result[OF w1])
  qed
qed

lemma undoMove_wf: "wf_board (board e) \<Longrightarrow> wf_board (board (snd (undoMove e)))"
  by (simp add: undoMove_def Let_def setPieceE_def removeCaptured_def
        split: option.splits side.splits)

section \<open>Castling rights, clocks and undo\<close>

lemma slide_inBoard: "m \<in> set (slide b cl r c dr dc) \<Longrightarrow> inBoard (row m) (col m)"
proof (induction b cl r c dr dc rule: slide.induct)
  case (1 b cl r c dr dc)
  show ?case
  proof (cases "inBoard r c \<and> (dr \<noteq> 0 \<or> dc \<noteq> 0)")
    case False
    then show ?thesis using "1.prems" by (subst (asm) slide.simps) simp
  next
    case True
    then show ?thesis using "1.prems" "1.IH"
      by (subst (asm) slide.simps) (auto simp: mv_def split: option.splits if_splits)
  qed
qed

lemma stepMoves_inBoard: "m \<in> set (stepMoves b r c cl offs) \<Longrightarrow> inBoard (row m) (col m)"
  by (auto simp: stepMoves_def Let_def inBoard_def mv_def split: if_splits)

lemma isEnemy_inBoard: "isEnemy (getPiece b r c) cl \<Longrightarrow> inBoard r c"
  by (auto simp: isEnemy_def getPiece_def inBoard_def split: option.splits if_splits)

lemma pawnCaptures_inBoard:
  assumes "case enPassantTarget e of None \<Rightarrow> True | Some s \<Rightarrow> inBoard (fst s) (snd s)"
    and "m \<in> set (pawnCaptures e r c cl dc)"
  shows "inBoard (row m) (col m)"
  using assms isEnemy_inBoard[of "board e" _ _ cl]
  by (auto simp: pawnCaptures_def Let_def mv_def split: if_splits)

lemma pseudo_inBoard:
  assumes "inBoard r c"
    and "case enPassantTarget e of None \<Rightarrow> True | Some s \<Rightarrow> inBoard (fst s) (snd s)"
    and "m \<in> set (getPseudoLegalMoves e r c p)"
  shows "inBoard (row m) (col m)"
proof (cases "ptype p")
  case Pawn
  then show ?thesis using assms pawnCaptures_inBoard[OF assms(2)]
    by (auto simp: getPseudoLegalMoves_def getPawnMoves_def Let_def mv_def inBoard_def
          split: if_splits)
next
  case King
  then show ?thesis using assms stepMoves_inBoard
    by (auto simp: getPseudoLegalMoves_def getKingMoves_def castlingMoves_def Let_def mv_def
          inBoard_def split: if_splits)
qed (use assms slide_inBoard stepMoves_inBoard in
      \<open>auto simp: getPseudoLegalMoves_def getKnightMoves_def getBishopMoves_def getRookMoves_def
          getQueenMoves_def getSlidingMoves_def\<close>)

lemma updateRights_monotone:
  "whiteKingSide (updateRights p fc tc cp cr) \<longrightarrow> whiteKingSide cr"
  "whiteQueenSide (updateRights p fc tc cp cr) \<longrightarrow> whiteQueenSide cr"
  "blackKingSide (updateRights p fc tc cp cr) \<longrightarrow> blackKingSide cr"
  "blackQueenSide (updateRights p fc tc cp cr) \<longrightarrow> blackQueenSide cr"
  by (auto simp: updateRights_def setKingSide_def setQueenSide_def Let_def
        split: option.splits if_splits)

lemma makeMove_rights:
  assumes "wf_board (board e)"
  shows "castlingRights (snd (makeMove fr fc tr tc promo e)) = castlingRights e
       \<or> (\<exists>p cp. castlingRights (snd (makeMove fr fc tr tc promo e))
                    = updateRights p fc tc cp (castlingRights e))"
proof (cases "getPiece (board e) fr fc")
  case None
  then show ?thesis by (simp add: makeMove_def)
next
  case (Some p)
  show ?thesis
  proof (cases "find (\<lambda>m. row m = tr \<and> col m = tc) (fst (getValidMoves fr fc e))")
    case None
    then show ?thesis using Some assms by (simp add: makeMove_def Let_def getValidMoves_frame)
  next
    case (Some m)
    define e1 where "e1 = snd (applyMove fr fc tr tc promo p m e)"
    have w1: "wf_board (board e1)" unfolding e1_def by (rule applyMove_wf[OF assms])
    have "castlingRights (snd (makeMove fr fc tr tc promo e)) = castlingRights e1"
      using \<open>getPiece (board e) fr fc = Some p\<close> Some assms
      by (simp add: makeMove_def Let_def getValidMoves_frame e1_def[symmetric]
            checkGameState_result[OF w1])
    moreover have "\<exists>cp. castlingRights e1 = updateRights p fc tc cp (castlingRights e)"
      by (auto simp: e1_def applyMove_def Let_def setPieceE_def pushCaptured_def
            split: option.splits side.splits)
    ultimately show ?thesis by auto
  qed
qed

lemma makeMove_rights_monotone:
  assumes "wf_board (board e)"
  shows "whiteKingSide (castlingRights (snd (makeMove fr fc tr tc promo e)))
           \<longrightarrow> whiteKingSide (castlingRights e)"
    and "whiteQueenSide (castlingRights (snd (makeMove fr fc tr tc promo e)))
           \<longrightarrow> whiteQueenSide (castlingRights e)"
    and "blackKingSide (castlingRights (snd (makeMove fr fc tr tc promo e)))
           \<longrightarrow> blackKingSide (castlingRights e)"
    and "blackQueenSide (castlingRights (snd (makeMove fr fc tr tc promo e)))
           \<longrightarrow> blackQueenSide (castlingRights e)"
  using makeMove_rights[OF assms, of fr fc tr tc promo] updateRights_monotone
  by auto

text \<open>
  Claim C9: on a non-empty move history \<open>undoMove\<close> leaves \<open>halfMoveClock\<close> and
  \<open>fullMoveNumber\<close> as they are.
\<close>

theorem undoMove_keeps_clocks:
  "moveHistory e \<noteq> [] \<Longrightarrow>
     halfMoveClock (snd (undoMove e)) = halfMoveClock e
   \<and> fullMoveNumber (snd (undoMove e)) = fullMoveNumber e"
  by (simp add: undoMove_def Let_def setPieceE_def removeCaptured_def
        split: option.splits side.splits)

text \<open>The undone move e7-e6 had reset the half-move clock from 5 and raised the move
  number from 10.\<close>

theorem undoMove_keeps_clocks_witness:
  "moveHistory afterE6 \<noteq> []
   \<and> halfMoveClock pawnEnding = Num 5 \<and> fullMoveNumber pawnEnding = Num 10
   \<and> halfMoveClock afterE6 = Num 0 \<and> fullMoveNumber afterE6 = Num 11
   \<and> halfMoveClock (snd (undoMove afterE6)) = halfMoveClock afterE6
   \<and> fullMoveNumber (snd (undoMove afterE6)) = fullMoveNumber afterE6"
proof -
  have h: "moveHistory afterE6 \<noteq> []" by code_simp
  have c: "halfMoveClock pawnEnding = Num 5 \<and> fullMoveNumber pawnEnding = Num 10
           \<and> halfMoveClock afterE6 = Num 0 \<and> fullMoveNumber afterE6 = Num 11" by code_simp
  show ?thesis using h c undoMove_keeps_clocks[OF h] by simp
qed

text \<open>Undoing the move of a piece other than a king leaves the castling rights as they
  are, whatever the move had cleared.\<close>

lemma undoMove_rights_not_king:
  "moveHistory e \<noteq> [] \<Longrightarrow> ptype (mr_piece (last (moveHistory e))) \<noteq> King
   \<Longrightarrow> castlingRights (snd (undoMove e)) = castlingRights e"
  by (simp add: undoMove_def Let_def setPieceE_def removeCaptured_def
        split: option.splits side.splits)

text \<open>
  Claim C1 (the code departs from it): \<open>makeMove\<close> followed by \<open>undoMove\<close> does not
  give back the FEN string. After the rook capture h1-h8 and its undo the castling
  field is \<open>-\<close> instead of \<open>Kk\<close>; after the knight move g1-f3 from the starting position
  and its undo the half-move clock is 1 instead of 0.
\<close>

theorem undo_does_not_restore_fen:
  "toFEN rookEnding = ''4k2r/8/8/8/8/8/8/4K2R w Kk - 0 1''
   \<and> fst (makeMove 7 7 0 7 Queen rookEnding) \<noteq> None
   \<and> toFEN (snd (undoMove (snd (makeMove 7 7 0 7 Queen rookEnding))))
       = ''4k2r/8/8/8/8/8/8/4K2R w - - 0 1''
   \<and> toFEN reset = ''rnbqkbnr/pppppppp/8/8/8/8/PPPPPPPP/RNBQKBNR w KQkq - 0 1''
   \<and> fst (makeMove 7 6 5 5 Queen reset) \<noteq> None
   \<and> toFEN (snd (undoMove (snd (makeMove 7 6 5 5 Queen reset))))
       = ''rnbqkbnr/pppppppp/8/8/8/8/PPPPPPPP/RNBQKBNR w KQkq - 1 1''"
  by code_simp

text \<open>
  Claim C8 (the code departs from it): \<open>makeMove\<close> never sets a castling flag (lemma
  \<open>makeMove_rights_monotone\<close>), but \<open>undoMove\<close> sets a flag that the undone move had
  not cleared. The rook move a1-b1 clears white's queen-side right; undoing the later
  king move e1-e2 sets it again.
\<close>

theorem undo_sets_right_cleared_earlier:
  "whiteQueenSide (castlingRights twoRooks)
   \<and> \<not> whiteQueenSide (castlingRights afterRb1)
   \<and> \<not> whiteQueenSide (castlingRights afterKd8)
   \<and> \<not> whiteQueenSide (castlingRights afterKe2)
   \<and> map_option mr_from (fst (undoMove afterKe2)) = Some (7, 4)
   \<and> whiteQueenSide (castlingRights (snd (undoMove afterKe2)))
   \<and> toFEN afterKd8 = ''3k4/8/8/8/8/8/8/1R2K2R w K - 2 2''
   \<and> toFEN (snd (undoMove afterKe2)) = ''3k4/8/8/8/8/8/8/1R2K2R w KQ - 3 2''"
  by code_simp

section \<open>Pruned and unpruned search\<close>

lemma ext_bounds [simp]:
  "NegInf \<le> (x::'a::linorder ext)" "x \<le> PosInf"
  "(x \<le> NegInf) = (x = NegInf)" "(PosInf \<le> x) = (x = PosInf)"
  by (cases x; simp)+

lemma ext_max_min [simp]: "max (x::'a::linorder ext) NegInf = x" "min x PosInf = x"
  by (simp_all add: max_def min_def)

lemma bruteMaxLoop_ge: "bruteMaxLoop brec e ms bm = Some M \<Longrightarrow> bm \<le> M"
proof (induction ms arbitrary: bm)
  case Nil
  then show ?case by simp
next
  case (Cons m ms)
  then obtain v where "bruteMaxLoop brec e ms (max bm v) = Some M"
    by (auto split: option.splits)
  from Cons.IH[OF this] show ?case by simp
qed

lemma bruteMinLoop_le: "bruteMinLoop brec e ms bm = Some M \<Longrightarrow> M \<le> bm"
proof (induction ms arbitrary: bm)
  case Nil
  then show ?case by simp
next
  case (Cons m ms)
  then obtain v where "bruteMinLoop brec e ms (min bm v) = Some M"
    by (auto split: option.splits)
  from Cons.IH[OF this] show ?case by simp
qed

lemma maxLoop_sound:
  assumes P: "\<And>ch al be v. al < be \<Longrightarrow> brec ch = Some v \<Longrightarrow> \<exists>w. rec ch al be = Some w \<and> fishburn al be v w"
  shows "alpha = max lo maxEval \<Longrightarrow> alpha < beta
     \<Longrightarrow> (maxEval \<le> lo \<longrightarrow> bm \<le> maxEval) \<Longrightarrow> (lo < maxEval \<longrightarrow> maxEval = bm)
     \<Longrightarrow> bruteMaxLoop brec e ms bm = Some M
     \<Longrightarrow> \<exists>w. maxLoop rec e ms maxEval alpha beta = Some w \<and> fishburn lo beta M w"
proof (induction ms arbitrary: alpha maxEval bm)
  case Nil
  then show ?case by (auto simp: fishburn_def max_def split: if_splits)
next
  case (Cons m ms)
  from Cons.prems(5) obtain v where bv: "brec (child e m) = Some v"
    and rest: "bruteMaxLoop brec e ms (max bm v) = Some M"
    by (auto split: option.splits)
  from P[OF Cons.prems(2) bv] obtain ev where rv: "rec (child e m) alpha beta = Some ev"
    and fb: "fishburn alpha beta v ev" by blast
  have mge: "max bm v \<le> M" using bruteMaxLoop_ge[OF rest] .
  show ?case
  proof (cases "beta \<le> max alpha ev")
    case True
    then have "beta \<le> ev" using Cons.prems(2) by (auto simp: max_def split: if_splits)
    then have "ev \<le> v" "max maxEval ev = ev" using fb Cons.prems(1,2)
      by (auto simp: fishburn_def max_def split: if_splits)
    then show ?thesis using True rv mge \<open>beta \<le> ev\<close> Cons.prems(1,2)
      by (auto simp: fishburn_def Let_def max_def split: if_splits)
  next
    case False
    have a1: "max alpha ev = max lo (max maxEval ev)" using Cons.prems(1) by (simp add: max.assoc)
    have a2: "max alpha ev < beta" using False by (simp add: not_le)
    have r1: "max maxEval ev \<le> lo \<longrightarrow> max bm v \<le> max maxEval ev"
      using fb Cons.prems(1,2,3,4) False
      by (auto simp: fishburn_def max_def split: if_splits)
    have r2: "lo < max maxEval ev \<longrightarrow> max maxEval ev = max bm v"
      using fb Cons.prems(1,2,3,4) False
      by (auto simp: fishburn_def max_def split: if_splits)
    from Cons.IH[OF a1 a2 r1 r2 rest] show ?thesis using rv False by (simp add: Let_def)
  qed
qed

lemma minLoop_sound:
  assumes P: "\<And>ch al be v. al < be \<Longrightarrow> brec ch = Some v \<Longrightarrow> \<exists>w. rec ch al be = Some w \<and> fishburn al be v w"
  shows "beta = min hi minEval \<Longrightarrow> alpha < beta
     \<Longrightarrow> (hi \<le> minEval \<longrightarrow> minEval \<le> bm) \<Longrightarrow> (minEval < hi \<longrightarrow> minEval = bm)
     \<Longrightarrow> bruteMinLoop brec e ms bm = Some M
     \<Longrightarrow> \<exists>w. minLoop rec e ms minEval alpha beta = Some w \<and> fishburn alpha hi M w"
proof (induction ms arbitrary: beta minEval bm)
  case Nil
  then show ?case by (auto simp: fishburn_def min_def split: if_splits)
next
  case (Cons m ms)
  from Cons.prems(5) obtain v where bv: "brec (child e m) = Some v"
    and rest: "bruteMinLoop brec e ms (min bm v) = Some M"
    by (auto split: option.splits)
  from P[OF Cons.prems(2) bv] obtain ev where rv: "rec (child e m) alpha beta = Some ev"
    and fb: "fishburn alpha beta v ev" by blast
  have mle: "M \<le> min bm v" using bruteMinLoop_le[OF rest] .
  show ?case
  proof (cases "min beta ev \<le> alpha")
    case True
    then have "ev \<le> alpha" using Cons.prems(2) by (auto simp: min_def split: if_splits)
    then have "v \<le> ev" "min minEval ev = ev" using fb Cons.prems(1,2)
      by (auto simp: fishburn_def min_def split: if_splits)
    then show ?thesis using True rv mle \<open>ev \<le> alpha\<close> Cons.prems(1,2)
      by (auto simp: fishburn_def Let_def min_def split: if_splits)
  next
    case False
    have a1: "min beta ev = min hi (min minEval ev)" using Cons.prems(1) by (simp add: min.assoc)
    have a2: "alpha < min beta ev" using False by (simp add: not_le)
    have r1: "hi \<le> min minEval ev \<longrightarrow> min minEval ev \<le> min bm v"
      using fb Cons.prems(1,2,3,4) False
      by (auto simp: fishburn_def min_def split: if_splits)
    have r2: "min minEval ev < hi \<longrightarrow> min minEval ev = min bm v"
      using fb Cons.prems(1,2,3,4) False
      by (auto simp: fishburn_def min_def split: if_splits)
    from Cons.IH[OF a1 a2 r1 r2 rest] show ?thesis using rv False by (simp add: Let_def)
  qed
qed

lemma minimax_sound:
  "alpha < beta \<Longrightarrow> bruteForce a srt d e mx = Some v
   \<Longrightarrow> \<exists>w. minimax a srt d e alpha beta mx = Some w \<and> fishburn alpha beta v w"
proof (induction d arbitrary: e alpha beta mx v)
  case 0
  then show ?case by (auto simp: fishburn_def)
next
  case (Suc d)
  show ?case
  proof (cases "isTerminal e \<or> fst (getAllLegalMoves e) = []")
    case True
    then show ?thesis using Suc.prems by (auto simp: fishburn_def Let_def split: if_splits)
  next
    case False
    let ?e1 = "snd (getAllLegalMoves e)"
    let ?om = "orderMoves srt (fst (getAllLegalMoves e)) ?e1"
    show ?thesis
    proof (cases mx)
      case True
      have b: "bruteMaxLoop (\<lambda>ch. bruteForce a srt d ch False) ?e1 ?om NegInf = Some v"
        using Suc.prems(2) False True by (simp add: Let_def)
      have "\<exists>w. maxLoop (\<lambda>ch al be. minimax a srt d ch al be False) ?e1 ?om NegInf alpha beta = Some w
              \<and> fishburn alpha beta v w"
        by (rule maxLoop_sound[where brec="\<lambda>ch. bruteForce a srt d ch False" and bm=NegInf and lo=alpha])
           (use Suc.IH Suc.prems(1) b in \<open>auto simp: max_def\<close>)
      then show ?thesis using False True by (simp add: Let_def)
    next
      case mxF: False
      have b: "bruteMinLoop (\<lambda>ch. bruteForce a srt d ch True) ?e1 ?om PosInf = Some v"
        using Suc.prems(2) False mxF by (simp add: Let_def)
      have "\<exists>w. minLoop (\<lambda>ch al be. minimax a srt d ch al be True) ?e1 ?om PosInf alpha beta = Some w
              \<and> fishburn alpha beta v w"
        by (rule minLoop_sound[where brec="\<lambda>ch. bruteForce a srt d ch True" and bm=PosInf and hi=beta])
           (use Suc.IH Suc.prems(1) b in \<open>auto simp: min_def\<close>)
      then show ?thesis using False mxF by (simp add: Let_def)
    qed
  qed
qed


lemma minimax_full_window:
  assumes "bruteForce a srt d e mx = Some v"
  shows "minimax a srt d e NegInf PosInf mx = Some v"
proof -
  have "(NegInf :: score) < PosInf" by (simp add: less_ext_def)
  from minimax_sound[OF this assms] obtain w where
    w: "minimax a srt d e NegInf PosInf mx = Some w" and f: "fishburn NegInf PosInf v w" by blast
  have "w = v"
  proof (cases w)
    case NegInf
    then show ?thesis using f by (simp add: fishburn_def)
  next
    case (Fin i)
    then show ?thesis using f by (simp add: fishburn_def less_ext_def)
  next
    case PosInf
    then show ?thesis using f by (simp add: fishburn_def)
  qed
  then show ?thesis using w by simp
qed

lemma addJitter_zero_less [simp]: "addJitter x 0 < addJitter y 0 \<longleftrightarrow> x < y"
  by (cases x; cases y) (auto simp: addJitter_def less_ext_def)



lemma hard_fields [simp]:
  "randomFactor (setDifficulty Hard) = 0" "difficulty (setDifficulty Hard) = Hard"
  "depth (setDifficulty Hard) = 4"
  by (simp_all add: setDifficulty_def)







text \<open>A position whose \<open>gameState\<close> is checkmate is scored by \<open>evaluate\<close> alone, whatever
  the remaining depth.\<close>

lemma minimax_checkmate:
  "gameState e = Checkmate \<Longrightarrow>
   minimax a srt d e alpha beta mx = Some (Fin (if currentPlayer e = White then -100000 else 100000))"
  by (cases d) (simp_all add: isTerminal_def evaluate_def)

text \<open>Every mated position that \<open>makeMove\<close> produces, so every mated node of the search
  tree, has that \<open>gameState\<close>.\<close>

lemma mated_node_score:
  assumes "wf_board (board e)"
    and "makeMove fr fc tr tc promo e = (Some r, c)"
    and "sideInCheck c" "noLegalMove c"
  shows "minimax a srt d c alpha beta mx
         = Some (Fin (if currentPlayer c = White then - 100000 else 100000))"
proof -
  from makeMove_success_shape[OF assms(1,2)] obtain e1 h where
    w1: "wf_board (board e1)"
    and c: "c = e1\<lparr>gameState := checkFirstClassify e1, moveHistory := h\<rparr>" by blast
  have "checkFirstClassify c = checkFirstClassify e1"
    unfolding c by (rule checkFirstClassify_cong[OF w1])
  moreover have "gameState c = checkFirstClassify e1" unfolding c by simp
  ultimately have "gameState c = checkFirstClassify c" by simp
  then have "gameState c = Checkmate" using assms(3,4) by (simp add: checkFirstClassify_def)
  then show ?thesis by (rule minimax_checkmate)
qed

text \<open>
  Claim C5 (the code departs from it): the search returns \<open>evaluate\<close> at depth 0 and at a
  terminal \<open>gameState\<close>, but a mate score does not depend on the depth. The position
  after d8-h4 is checkmate against white; searched with three plies or with one ply
  remaining it scores -100000 both times. The depth enters only in the branch for a
  position without legal moves whose \<open>gameState\<close> is not terminal, such as the same
  position loaded from its FEN string.
\<close>

theorem mate_score_ignores_depth:
  "gameState mated = Checkmate \<and> currentPlayer mated = White
   \<and> minimax (setDifficulty Hard) stableSort 3 mated NegInf PosInf True = Some (Fin (- 100000))
   \<and> minimax (setDifficulty Hard) stableSort 1 mated NegInf PosInf True = Some (Fin (- 100000))
   \<and> minimax (setDifficulty Hard) stableSort 3 foolsMate NegInf PosInf True = Some (Fin (- 99999))"
proof -
  have f: "minimax (setDifficulty Hard) stableSort 3 foolsMate NegInf PosInf True
           = Some (Fin (- 99999))" by code_simp
  have g: "gameState mated = Checkmate \<and> currentPlayer mated = White" by code_simp
  then have c: "gameState mated = Checkmate" ..
  have d3: "minimax (setDifficulty Hard) stableSort 3 mated NegInf PosInf True
            = Some (Fin (if currentPlayer mated = White then - 100000 else 100000))"
    by (rule minimax_checkmate[OF c])
  have d1: "minimax (setDifficulty Hard) stableSort 1 mated NegInf PosInf True
            = Some (Fin (if currentPlayer mated = White then - 100000 else 100000))"
    by (rule minimax_checkmate[OF c])
  show ?thesis unfolding d3 d1 using g f by simp
qed

section \<open>Positions on which the unpruned search returns a value\<close>

text \<open>
  \<open>evaluate\<close> throws only on a piece of the type \<open>true\<close>, which only a promotion in the
  search creates. On a board without pawns the unpruned search therefore returns a value
  at every depth, and the pruned search with the full window returns the same.
\<close>

lemma allSquares_iff: "s \<in> set allSquares \<longleftrightarrow> inBoard (fst s) (snd s)"
proof -
  have i: "set idx8 = {0..7}" by (auto simp: idx8_def)
  have "set allSquares = {0..7} \<times> {0..7}"
    unfolding allSquares_def by (auto simp: i)
  then show ?thesis by (cases s) (auto simp: inBoard_def)
qed

lemma pawnless_iff:
  "pawnless b \<longleftrightarrow> (\<forall>r c p. getPiece b r c = Some p \<longrightarrow> ptype p \<noteq> Pawn \<and> ptype p \<noteq> BoolTrue)"
proof
  assume h: "pawnless b"
  show "\<forall>r c p. getPiece b r c = Some p \<longrightarrow> ptype p \<noteq> Pawn \<and> ptype p \<noteq> BoolTrue"
  proof (intro allI impI)
    fix r c p assume g: "getPiece b r c = Some p"
    then have "inBoard r c" by (auto simp: getPiece_def inBoard_def split: if_splits)
    then have "(r, c) \<in> set allSquares" by (simp add: allSquares_iff)
    then show "ptype p \<noteq> Pawn \<and> ptype p \<noteq> BoolTrue"
      using h g by (auto simp: pawnless_def list_all_iff)
  qed
next
  assume "\<forall>r c p. getPiece b r c = Some p \<longrightarrow> ptype p \<noteq> Pawn \<and> ptype p \<noteq> BoolTrue"
  then show "pawnless b" by (auto simp: pawnless_def list_all_iff split: option.splits)
qed

lemma materialLoop_total:
  "pawnless (board e) \<Longrightarrow> materialLoop e ss acc \<noteq> None"
proof (induction ss arbitrary: acc)
  case Nil
  then show ?case by simp
next
  case (Cons s ss)
  show ?case
  proof (cases "getPiece (board e) (fst s) (snd s)")
    case None
    then show ?thesis using Cons by simp
  next
    case (Some p)
    then have "ptype p \<noteq> BoolTrue" using Cons.prems by (auto simp: pawnless_iff)
    then obtain v where "getPositionValue p (fst s) (snd s) e = Some v"
      by (cases "ptype p") (auto simp: getPositionValue_def Let_def)
    then show ?thesis using Some Cons by (simp add: Let_def)
  qed
qed

lemma evaluate_total: "pawnless (board e) \<Longrightarrow> fst (evaluate e) \<noteq> None"
  using materialLoop_total[of e allSquares "(0, 0, 0)"]
  by (auto simp: evaluate_def Let_def split: option.splits)

lemma slide_flags: "m \<in> set (slide b cl r c dr dc) \<Longrightarrow> \<not> promotion m \<and> \<not> enPassant m \<and> castling m = None"
proof (induction b cl r c dr dc rule: slide.induct)
  case (1 b cl r c dr dc)
  show ?case
  proof (cases "inBoard r c \<and> (dr \<noteq> 0 \<or> dc \<noteq> 0)")
    case False
    then show ?thesis using "1.prems" by (subst (asm) slide.simps) simp
  next
    case True
    then show ?thesis using "1.prems" "1.IH"
      by (subst (asm) slide.simps) (auto simp: mv_def split: option.splits if_splits)
  qed
qed

lemma stepMoves_flags: "m \<in> set (stepMoves b r c cl offs) \<Longrightarrow> \<not> promotion m \<and> \<not> enPassant m \<and> castling m = None"
  by (auto simp: stepMoves_def Let_def mv_def split: if_splits)

lemma pseudo_no_promotion:
  assumes "ptype p \<noteq> Pawn" "m \<in> set (getPseudoLegalMoves e r c p)"
  shows "\<not> promotion m \<and> \<not> enPassant m"
proof (cases "ptype p")
  case Pawn
  then show ?thesis using assms by simp
next
  case King
  then show ?thesis using assms stepMoves_flags
    by (auto simp: getPseudoLegalMoves_def getKingMoves_def castlingMoves_def Let_def mv_def
          split: if_splits)
qed (use assms slide_flags stepMoves_flags in
      \<open>auto simp: getPseudoLegalMoves_def getKnightMoves_def getBishopMoves_def getRookMoves_def
          getQueenMoves_def getSlidingMoves_def\<close>)

lemma pawnless_setPiece:
  assumes "wf_board b" "pawnless b"
    and "case q of None \<Rightarrow> True | Some p \<Rightarrow> ptype p \<noteq> Pawn \<and> ptype p \<noteq> BoolTrue"
  shows "pawnless (setPiece r c q b)"
  using assms by (auto simp: pawnless_iff getPiece_set_any split: if_splits option.splits)

lemma pawnless_getPiece:
  "pawnless b \<Longrightarrow> case getPiece b r c of None \<Rightarrow> True | Some p \<Rightarrow> ptype p \<noteq> Pawn \<and> ptype p \<noteq> BoolTrue"
  by (auto simp: pawnless_iff split: option.splits)

lemma applyMove_pawnless:
  assumes wf: "wf_board (board e)" and pl: "pawnless (board e)"
    and p: "getPiece (board e) fr fc = Some p" and np: "\<not> promotion m" "\<not> enPassant m"
  shows "pawnless (board (snd (applyMove fr fc tr tc promo p m e)))"
proof -
  have pp: "case Some p of None \<Rightarrow> True | Some p \<Rightarrow> ptype p \<noteq> Pawn \<and> ptype p \<noteq> BoolTrue"
    using pl p by (auto simp: pawnless_iff)
  have nn: "case (None :: piece option) of None \<Rightarrow> True | Some p \<Rightarrow> ptype p \<noteq> Pawn \<and> ptype p \<noteq> BoolTrue"
    by simp
  show ?thesis
    using wf pl np pp nn
    by (cases "castling m"; cases "getPiece (board e) tr tc")
       (auto simp: applyMove_def Let_def setPieceE_def pushCaptured_def
          intro!: pawnless_setPiece pawnless_getPiece split: side.splits)
qed

lemma makeMove_pawnless:
  assumes wf: "wf_board (board e)" and pl: "pawnless (board e)"
  shows "pawnless (board (snd (makeMove fr fc tr tc promo e)))"
proof (cases "getPiece (board e) fr fc")
  case None
  then show ?thesis using pl by (simp add: makeMove_def)
next
  case (Some p)
  then have np: "ptype p \<noteq> Pawn" using pl by (auto simp: pawnless_iff)
  show ?thesis
  proof (cases "find (\<lambda>m. row m = tr \<and> col m = tc) (fst (getValidMoves fr fc e))")
    case None
    then show ?thesis using Some wf pl by (simp add: makeMove_def Let_def getValidMoves_frame)
  next
    case found: (Some m)
    then have "m \<in> set (fst (getValidMoves fr fc e))" by (auto simp: find_Some_iff)
    then have "m \<in> set (getPseudoLegalMoves e fr fc p)"
      using Some by (auto simp: getValidMoves_pure[OF wf] split: if_splits)
    from pseudo_no_promotion[OF np this] have fl: "\<not> promotion m" "\<not> enPassant m" by simp_all
    define e1 where "e1 = snd (applyMove fr fc tr tc promo p m e)"
    have w1: "wf_board (board e1)" unfolding e1_def by (rule applyMove_wf[OF wf])
    have p1: "pawnless (board e1)" unfolding e1_def by (rule applyMove_pawnless[OF wf pl Some fl])
    have "board (snd (makeMove fr fc tr tc promo e)) = board e1"
      using Some found wf
      by (simp add: makeMove_def Let_def getValidMoves_frame e1_def[symmetric]
            checkGameState_result[OF w1])
    then show ?thesis using p1 by simp
  qed
qed

lemma child_invariant:
  assumes "wf_board (board e)" "pawnless (board e)"
  shows "wf_board (board (child e m)) \<and> pawnless (board (child e m))"
proof -
  have "wf_board (board (clone e))" "pawnless (board (clone e))"
    using assms by (simp_all add: clone_def)
  then show ?thesis unfolding child_def by (simp add: makeMove_wf makeMove_pawnless)
qed

lemma bruteMaxLoop_total:
  "(\<And>m. rec (child e m) \<noteq> None) \<Longrightarrow> bruteMaxLoop rec e ms acc \<noteq> None"
  by (induction ms arbitrary: acc) (auto split: option.splits)

lemma bruteMinLoop_total:
  "(\<And>m. rec (child e m) \<noteq> None) \<Longrightarrow> bruteMinLoop rec e ms acc \<noteq> None"
  by (induction ms arbitrary: acc) (auto split: option.splits)

lemma bruteForce_total:
  "wf_board (board e) \<Longrightarrow> pawnless (board e) \<Longrightarrow> bruteForce a srt d e mx \<noteq> None"
proof (induction d arbitrary: e mx)
  case 0
  then show ?case using evaluate_total[of e] by simp
next
  case (Suc d)
  have fr: "snd (getAllLegalMoves e) = e" using Suc.prems(1) by (rule getAllLegalMoves_frame)
  have ch: "bruteForce a srt d (child e m) mx' \<noteq> None" for m mx'
    using child_invariant[OF Suc.prems] Suc.IH by blast
  show ?case
    using evaluate_total[OF Suc.prems(2)] bruteMaxLoop_total[of "\<lambda>c. bruteForce a srt d c False" e]
      bruteMinLoop_total[of "\<lambda>c. bruteForce a srt d c True" e] ch
    by (simp add: Let_def fr)
qed

lemma pawnless_search_exact:
  assumes "wf_board (board e)" "pawnless (board e)"
  shows "minimax a srt d e NegInf PosInf mx = bruteForce a srt d e mx
       \<and> bruteForce a srt d e mx \<noteq> None"
proof -
  from bruteForce_total[OF assms] obtain v where "bruteForce a srt d e mx = Some v" by blast
  then show ?thesis using minimax_full_window by simp
qed

section \<open>Loading malformed FEN strings\<close>

lemma squareCount_Cons:
  "squareCount (ch # s) = (if isDigit18 ch then of_char ch - 48 else 1) + squareCount s"
  by (simp add: squareCount_def)

lemma digit_pos: "isDigit18 ch \<Longrightarrow> (of_char ch :: int) - 48 \<ge> 1"
proof -
  assume "isDigit18 ch"
  then have "(49::nat) \<le> of_char ch" by (simp add: isDigit18_def)
  then have "int 49 \<le> int (of_char ch)" by (rule iffD2[OF of_nat_le_iff])
  then show ?thesis by (simp add: of_char_def)
qed

lemma squareCount_nonneg: "squareCount s \<ge> 0"
proof (induction s)
  case Nil
  then show ?case by (simp add: squareCount_def)
next
  case (Cons ch s)
  then show ?case using digit_pos[of ch]
    by (cases "isDigit18 ch") (simp_all add: squareCount_Cons)
qed

lemma parseRow_ok:
  "fst (parseRow r s c b) \<Longrightarrow>
     fst (snd (parseRow r s c b)) = c + squareCount s \<and> list_all recognised s"
  by (induction s arbitrary: c b)
     (auto simp: squareCount_Cons squareCount_def recognised_def split: option.splits if_splits)

lemma parseRow_fail:
  "\<not> fst (parseRow r s c b) \<Longrightarrow> c \<ge> 0 \<Longrightarrow>
     list_ex (\<lambda>ch. \<not> recognised ch) s \<or> c + squareCount s > 8"
proof (induction s arbitrary: c b)
  case Nil
  then show ?case by simp
next
  case (Cons ch s)
  show ?case
  proof (cases "isDigit18 ch")
    case True
    then have "\<not> fst (parseRow r s (c + (of_char ch - 48)) b)" using Cons.prems by simp
    from Cons.IH[OF this] digit_pos[OF True] Cons.prems(2) True show ?thesis
      by (auto simp: squareCount_Cons)
  next
    case False
    show ?thesis
    proof (cases "pieceMap ch")
      case None
      then show ?thesis using False by (simp add: recognised_def)
    next
      case (Some p)
      show ?thesis
      proof (cases "c \<ge> 8")
        case True
        then show ?thesis using False squareCount_nonneg[of s] by (simp add: squareCount_Cons)
      next
        case c8: False
        then have "\<not> fst (parseRow r s (c + 1) (setPiece r c (Some p) b))"
          using Cons.prems False Some by simp
        from Cons.IH[OF this] Cons.prems(2) False show ?thesis
          by (auto simp: squareCount_Cons)
      qed
    qed
  qed
qed

lemma parseRows_iff: "fst (parseRows r rows b) \<longleftrightarrow> \<not> list_ex badRow rows"
proof (induction rows arbitrary: r b)
  case Nil
  then show ?case by simp
next
  case (Cons rw rows)
  show ?case
  proof (cases "fst (parseRow r rw 0 b)")
    case True
    from parseRow_ok[OF True] have "fst (snd (parseRow r rw 0 b)) = squareCount rw"
      and "list_all recognised rw" by simp_all
    then show ?thesis using True Cons.IH
      by (auto simp: Let_def badRow_def list_ex_iff list_all_iff)
  next
    case False
    from parseRow_fail[OF False] have "badRow rw" by (auto simp: badRow_def)
    then show ?thesis using False by (simp add: Let_def)
  qed
qed

lemma loadFromFEN_fails_iff: "\<not> fst (loadFromFEN fen e) \<longleftrightarrow> malformedFEN fen"
  by (auto simp: loadFromFEN_def malformedFEN_def Let_def parseRows_iff)

text \<open>
  Claim C2, as amended: \<open>loadFromFEN\<close> returns false on every malformed input; on such a
  call every field other than the board is unchanged, and the board too when the input
  has fewer than four fields.
\<close>

theorem loadFromFEN_malformed:
  assumes "malformedFEN fen"
  shows "fst (loadFromFEN fen e) = False
       \<and> snd (loadFromFEN fen e) = e\<lparr>board := board (snd (loadFromFEN fen e))\<rparr>
       \<and> (length (splitWs fen) < 4 \<longrightarrow> snd (loadFromFEN fen e) = e)"
proof -
  have f: "\<not> fst (loadFromFEN fen e)" using assms by (simp add: loadFromFEN_fails_iff)
  then have "snd (loadFromFEN fen e) = e\<lparr>board := board (snd (loadFromFEN fen e))\<rparr>"
    by (auto simp: loadFromFEN_def Let_def split: if_splits)
  moreover have "length (splitWs fen) < 4 \<longrightarrow> snd (loadFromFEN fen e) = e"
    by (simp add: loadFromFEN_def Let_def)
  ultimately show ?thesis using f by simp
qed

theorem loadFromFEN_malformed_witness:
  "malformedFEN nineSquares
   \<and> fst (loadFromFEN nineSquares rookEnding) = False
   \<and> snd (loadFromFEN nineSquares rookEnding)
       = rookEnding\<lparr>board := board (snd (loadFromFEN nineSquares rookEnding))\<rparr>
   \<and> malformedFEN threeFields \<and> length (splitWs threeFields) < 4
   \<and> snd (loadFromFEN threeFields rookEnding) = rookEnding"
proof -
  have h1: "malformedFEN nineSquares" by code_simp
  have h2: "malformedFEN threeFields" by code_simp
  have h3: "length (splitWs threeFields) < 4" by code_simp
  show ?thesis
    using h1 h2 h3 loadFromFEN_malformed[OF h1, of rookEnding]
      loadFromFEN_malformed[OF h2, of rookEnding]
    by simp
qed

text \<open>
  The claim as stated fails: a board field of seven rows is rejected after the board
  has been cleared, so the state after the failed call is not the state before it.
  Fields are separated by any white space, not by spaces only: a string of one
  space-separated field is loaded when tabs separate its four fields.
\<close>

theorem loadFromFEN_failure_clears_board:
  "malformedFEN sevenRows
   \<and> fst (loadFromFEN sevenRows reset) = False
   \<and> board (snd (loadFromFEN sevenRows reset)) = emptyBoard
   \<and> snd (loadFromFEN sevenRows reset) \<noteq> reset
   \<and> length (spaceFields tabSeparated) = 1
   \<and> fst (loadFromFEN tabSeparated reset)"
  by code_simp

text \<open>A successful \<open>loadFromFEN\<close> only ever reports \<open>playing\<close> or \<open>check\<close>.\<close>

lemma loadFromFEN_gameState:
  "fst (loadFromFEN fen e) \<Longrightarrow>
     gameState (snd (loadFromFEN fen e)) = Playing \<or> gameState (snd (loadFromFEN fen e)) = Check"
  by (auto simp: loadFromFEN_def Let_def split: if_splits)

text \<open>
  Claim C3 (the code departs from it): \<open>loadFromFEN\<close> succeeds on the mate position and
  \<open>getAllLegalMoves\<close> is empty there, but \<open>gameState\<close> is \<open>check\<close>, not \<open>checkmate\<close>.
  \<open>makeMove\<close> reaching the same position (d8-h4 one ply earlier) reports checkmate.
\<close>

theorem loaded_mate_reports_check:
  "fst (loadFromFEN foolsMateFEN reset)
   \<and> gameState foolsMate = Check
   \<and> fst (getAllLegalMoves foolsMate) = []
   \<and> toFEN mated = foolsMateFEN
   \<and> gameState mated = Checkmate"
  by code_simp

end
